theory Spec2Isabelle
  imports Complex_Main "HOL-Library.Word" "HOL-Library.Sublist"
begin

section \<open>Strings\<close>

text \<open>
  An ECMAScript string is a sequence of 16-bit code units. ASCII literals of the
  source are written through \<open>utf16\<close>.
\<close>

type_synonym jsstring = "16 word list"

definition utf16 :: "string \<Rightarrow> jsstring" where
  "utf16 = map of_char"

text \<open>
  \<^verbatim>\<open>String.prototype.trim\<close> removes the code units of the productions WhiteSpace
  and LineTerminator from both ends.
\<close>

definition isWhiteSpace :: "16 word \<Rightarrow> bool" where
  "isWhiteSpace c \<longleftrightarrow>
     c = 0x0009 \<or> c = 0x000B \<or> c = 0x000C \<or> c = 0x0020 \<or> c = 0x00A0 \<or> c = 0x1680 \<or>
     (0x2000 \<le> c \<and> c \<le> 0x200A) \<or> c = 0x202F \<or> c = 0x205F \<or> c = 0x3000 \<or> c = 0xFEFF"

definition isLineTerminator :: "16 word \<Rightarrow> bool" where
  "isLineTerminator c \<longleftrightarrow> c = 0x000A \<or> c = 0x000D \<or> c = 0x2028 \<or> c = 0x2029"

definition isTrimmable :: "16 word \<Rightarrow> bool" where
  "isTrimmable c \<longleftrightarrow> isWhiteSpace c \<or> isLineTerminator c"

definition trimStart :: "jsstring \<Rightarrow> jsstring" where
  "trimStart s = dropWhile isTrimmable s"

definition trimEnd :: "jsstring \<Rightarrow> jsstring" where
  "trimEnd s = rev (dropWhile isTrimmable (rev s))"

definition trim :: "jsstring \<Rightarrow> jsstring" where
  "trim s = trimEnd (trimStart s)"

text \<open>\<^verbatim>\<open>s.slice(b, e)\<close> for non-negative indices.\<close>

definition slice :: "nat \<Rightarrow> nat \<Rightarrow> jsstring \<Rightarrow> jsstring" where
  "slice b e s = drop b (take e s)"

text \<open>
  \<^verbatim>\<open>const ID = () => '_' + Math.random().toString(36).slice(2, 9);\<close>
  The argument is the radix-36 text of the number that \<^verbatim>\<open>Math.random()\<close> drew
  (\<^verbatim>\<open>"0.i"\<close> for 0.5); the draw itself belongs to the environment.
\<close>

definition ID :: "jsstring \<Rightarrow> jsstring" where
  "ID rnd = utf16 ''_'' @ slice 2 9 rnd"

section \<open>Tasks\<close>

text \<open>
  The object that \<^verbatim>\<open>addTask\<close> builds: \<^verbatim>\<open>{ id, text, completed, createdAt }\<close>.
  (\<open>id\<close> and \<open>text\<close> are taken in HOL, hence the prefix.)
\<close>

record task =
  task_id :: jsstring
  task_text :: jsstring
  completed :: bool
  createdAt :: int

text \<open>
  The second argument of \<^verbatim>\<open>updateTask\<close>: an object that holds any of the fields
  of a task. \<^verbatim>\<open>Object.assign(t, updates)\<close> copies every field that is present.
\<close>

record updates =
  upd_id :: "jsstring option"
  upd_text :: "jsstring option"
  upd_completed :: "bool option"
  upd_createdAt :: "int option"

definition Object_assign :: "task \<Rightarrow> updates \<Rightarrow> task" where
  "Object_assign t u =
     \<lparr> task_id = (case upd_id u of None \<Rightarrow> task_id t | Some v \<Rightarrow> v),
       task_text = (case upd_text u of None \<Rightarrow> task_text t | Some v \<Rightarrow> v),
       completed = (case upd_completed u of None \<Rightarrow> completed t | Some v \<Rightarrow> v),
       createdAt = (case upd_createdAt u of None \<Rightarrow> createdAt t | Some v \<Rightarrow> v) \<rparr>"

section \<open>localStorage\<close>

text \<open>
  The storage of the origin: a list of key/value entries. Every access throws when the
  storage is denied to the page, and \<^verbatim>\<open>setItem\<close> throws when the entries would
  outgrow the quota.
\<close>

datatype storage_error = SecurityError | QuotaExceededError

record storage =
  denied :: bool
  quota :: nat
  items :: "(jsstring \<times> jsstring) list"

fun put :: "'k \<Rightarrow> 'v \<Rightarrow> ('k \<times> 'v) list \<Rightarrow> ('k \<times> 'v) list" where
  "put k v [] = [(k, v)]"
| "put k v ((k', v') # kvs) = (if k' = k then (k, v) # kvs else (k', v') # put k v kvs)"

definition used :: "(jsstring \<times> jsstring) list \<Rightarrow> nat" where
  "used kvs = sum_list (map (\<lambda>(k, v). length k + length v) kvs)"

definition getItem :: "jsstring \<Rightarrow> storage \<Rightarrow> storage_error + jsstring option" where
  "getItem k st = (if denied st then Inl SecurityError else Inr (map_of (items st) k))"

definition setItem :: "jsstring \<Rightarrow> jsstring \<Rightarrow> storage \<Rightarrow> storage_error + storage" where
  "setItem k v st =
     (if denied st then Inl SecurityError
      else if quota st < used (put k v (items st)) then Inl QuotaExceededError
      else Inr (st\<lparr>items := put k v (items st)\<rparr>))"

section \<open>JSON.parse\<close>

text \<open>
  The values of JSON text. A number holds the mathematical value of its literal;
  ECMAScript rounds that value to a binary64 afterwards, which is exact for the integers
  that \<^verbatim>\<open>Date.now()\<close> returns. An object holds its properties in the order of their
  first occurrence.
\<close>

datatype json =
  JNull
| JBool bool
| JNum rat
| JStr jsstring
| JArr "json list"
| JObj "(jsstring \<times> json) list"

definition isJSONWhiteSpace :: "16 word \<Rightarrow> bool" where
  "isJSONWhiteSpace c \<longleftrightarrow> c = 0x09 \<or> c = 0x0A \<or> c = 0x0D \<or> c = 0x20"

definition skipWS :: "jsstring \<Rightarrow> jsstring" where
  "skipWS s = dropWhile isJSONWhiteSpace s"

fun stripPrefix :: "jsstring \<Rightarrow> jsstring \<Rightarrow> jsstring option" where
  "stripPrefix [] s = Some s"
| "stripPrefix (p # ps) [] = None"
| "stripPrefix (p # ps) (c # s) = (if p = c then stripPrefix ps s else None)"

text \<open>A result of a parser is a value and the input that is left; \<open>None\<close> is SyntaxError.\<close>

fun consResult :: "'a \<Rightarrow> ('a list \<times> 'b) option \<Rightarrow> ('a list \<times> 'b) option" where
  "consResult x None = None"
| "consResult x (Some (xs, r)) = Some (x # xs, r)"

fun mapResult :: "('a \<Rightarrow> 'b) \<Rightarrow> ('a \<times> 'c) option \<Rightarrow> ('b \<times> 'c) option" where
  "mapResult f None = None"
| "mapResult f (Some (x, r)) = Some (f x, r)"

subsection \<open>Strings\<close>

definition hexValue :: "16 word \<Rightarrow> nat option" where
  "hexValue c =
     (if 0x30 \<le> c \<and> c \<le> 0x39 then Some (unat c - 0x30)
      else if 0x41 \<le> c \<and> c \<le> 0x46 then Some (unat c - 0x37)
      else if 0x61 \<le> c \<and> c \<le> 0x66 then Some (unat c - 0x57)
      else None)"

definition hex4 :: "16 word \<Rightarrow> 16 word \<Rightarrow> 16 word \<Rightarrow> 16 word \<Rightarrow> 16 word option" where
  "hex4 a b c d =
     (case (hexValue a, hexValue b, hexValue c, hexValue d) of
        (Some x, Some y, Some z, Some w) \<Rightarrow> Some (of_nat (((x * 16 + y) * 16 + z) * 16 + w))
      | _ \<Rightarrow> None)"

text \<open>The character after a backslash, other than \<^verbatim>\<open>u\<close>.\<close>

definition escapeValue :: "16 word \<Rightarrow> 16 word option" where
  "escapeValue e =
     (if e = 0x22 then Some 0x22
      else if e = 0x5C then Some 0x5C
      else if e = 0x2F then Some 0x2F
      else if e = 0x62 then Some 0x08
      else if e = 0x66 then Some 0x0C
      else if e = 0x6E then Some 0x0A
      else if e = 0x72 then Some 0x0D
      else if e = 0x74 then Some 0x09
      else None)"

text \<open>The characters of a string, after the opening quote and up to the closing one.\<close>

fun parseChars :: "jsstring \<Rightarrow> (jsstring \<times> jsstring) option" where
  "parseChars [] = None"
| "parseChars (c # s) =
     (if c = 0x22 then Some ([], s)
      else if c = 0x5C then
        (case s of
           [] \<Rightarrow> None
         | e # s1 \<Rightarrow>
             if e = 0x75 then
               (case s1 of
                  h1 # h2 # h3 # h4 # s2 \<Rightarrow>
                    (case hex4 h1 h2 h3 h4 of
                       None \<Rightarrow> None
                     | Some v \<Rightarrow> consResult v (parseChars s2))
                | _ \<Rightarrow> None)
             else
               (case escapeValue e of
                  None \<Rightarrow> None
                | Some v \<Rightarrow> consResult v (parseChars s1)))
      else if c < 0x20 then None
      else consResult c (parseChars s))"

declare parseChars.simps(2) [simp del]

subsection \<open>Numbers\<close>

definition isDigit :: "16 word \<Rightarrow> bool" where
  "isDigit c \<longleftrightarrow> 0x30 \<le> c \<and> c \<le> 0x39"

definition digitsValue :: "jsstring \<Rightarrow> nat" where
  "digitsValue ds = foldl (\<lambda>a c. 10 * a + (unat c - 0x30)) 0 ds"

text \<open>The integer part: a single \<^verbatim>\<open>0\<close>, or digits that do not start with \<^verbatim>\<open>0\<close>.\<close>

definition parseInt :: "jsstring \<Rightarrow> (nat \<times> jsstring) option" where
  "parseInt s =
     (case s of
        [] \<Rightarrow> None
      | c # r \<Rightarrow>
          if c = 0x30 then Some (0, r)
          else if isDigit c then Some (digitsValue (takeWhile isDigit s), dropWhile isDigit s)
          else None)"

text \<open>The optional fraction: a point and at least one digit.\<close>

definition parseFrac :: "jsstring \<Rightarrow> (rat \<times> jsstring) option" where
  "parseFrac s =
     (case s of
        [] \<Rightarrow> Some (0, s)
      | c # r \<Rightarrow>
          if c = 0x2E then
            (let ds = takeWhile isDigit r
             in if ds = [] then None
                else Some (of_nat (digitsValue ds) / of_nat (10 ^ length ds), dropWhile isDigit r))
          else Some (0, s))"

text \<open>The optional exponent: \<^verbatim>\<open>e\<close> or \<^verbatim>\<open>E\<close>, an optional sign and at least one digit.\<close>

definition parseExp :: "jsstring \<Rightarrow> (int \<times> jsstring) option" where
  "parseExp s =
     (case s of
        [] \<Rightarrow> Some (0, s)
      | c # r \<Rightarrow>
          if c = 0x65 \<or> c = 0x45 then
            (let neg = (case r of [] \<Rightarrow> False | g # r1 \<Rightarrow> g = 0x2D);
                 r2 = (case r of [] \<Rightarrow> r | g # r1 \<Rightarrow> if g = 0x2B \<or> g = 0x2D then r1 else r);
                 ds = takeWhile isDigit r2
             in if ds = [] then None
                else Some (if neg then - int (digitsValue ds) else int (digitsValue ds),
                           dropWhile isDigit r2))
          else Some (0, s))"

definition scale :: "rat \<Rightarrow> int \<Rightarrow> rat" where
  "scale x e = (if 0 \<le> e then x * of_nat (10 ^ nat e) else x / of_nat (10 ^ nat (- e)))"

definition parseNumber :: "jsstring \<Rightarrow> (rat \<times> jsstring) option" where
  "parseNumber s =
     (let neg = (case s of [] \<Rightarrow> False | c # r \<Rightarrow> c = 0x2D);
          s1 = (if neg then tl s else s)
      in case parseInt s1 of
           None \<Rightarrow> None
         | Some (n, s2) \<Rightarrow>
             (case parseFrac s2 of
                None \<Rightarrow> None
              | Some (f, s3) \<Rightarrow>
                  (case parseExp s3 of
                     None \<Rightarrow> None
                   | Some (e, s4) \<Rightarrow>
                       Some (scale (if neg then - (of_nat n + f) else of_nat n + f) e, s4))))"

text \<open>A character that cannot continue a number.\<close>

definition endsNumber :: "16 word \<Rightarrow> bool" where
  "endsNumber c \<longleftrightarrow> \<not> isDigit c \<and> c \<noteq> 0x2E \<and> c \<noteq> 0x65 \<and> c \<noteq> 0x45"

subsection \<open>Values\<close>

text \<open>
  The properties of an object are created one member after the other: a key that comes
  again keeps its place and takes the new value.
\<close>

definition properties :: "(jsstring \<times> json) list \<Rightarrow> (jsstring \<times> json) list" where
  "properties kvs = foldl (\<lambda>acc (k, v). put k v acc) [] kvs"

text \<open>
  \<open>parseValue\<close> reads one value after optional white space. \<open>parseElements\<close> reads
  the elements of an array that is not empty, up to the closing bracket, and
  \<open>parseMembers\<close> the members of an object that is not empty, up to the closing brace.
  The tests on the length of the rest make the recursion well-founded; they always hold
  (\<open>parseElements_unguarded\<close> and \<open>parseMembers_unguarded\<close> below).
\<close>

function parseValue :: "jsstring \<Rightarrow> (json \<times> jsstring) option"
  and parseElements :: "jsstring \<Rightarrow> (json list \<times> jsstring) option"
  and parseMembers :: "jsstring \<Rightarrow> ((jsstring \<times> json) list \<times> jsstring) option" where
  "parseValue s =
     (case skipWS s of
        [] \<Rightarrow> None
      | c # r \<Rightarrow>
          if c = 0x7B then
            (case skipWS r of
               [] \<Rightarrow> None
             | d # r1 \<Rightarrow>
                 if d = 0x7D then Some (JObj [], r1)
                 else mapResult (\<lambda>kvs. JObj (properties kvs)) (parseMembers r))
          else if c = 0x5B then
            (case skipWS r of
               [] \<Rightarrow> None
             | d # r1 \<Rightarrow>
                 if d = 0x5D then Some (JArr [], r1)
                 else mapResult JArr (parseElements r))
          else if c = 0x22 then mapResult JStr (parseChars r)
          else if c = 0x74 then map_option (Pair (JBool True)) (stripPrefix (utf16 ''rue'') r)
          else if c = 0x66 then map_option (Pair (JBool False)) (stripPrefix (utf16 ''alse'') r)
          else if c = 0x6E then map_option (Pair JNull) (stripPrefix (utf16 ''ull'') r)
          else mapResult JNum (parseNumber (c # r)))"
| "parseElements s =
     (case parseValue s of
        None \<Rightarrow> None
      | Some (v, r) \<Rightarrow>
          (case skipWS r of
             [] \<Rightarrow> None
           | c # r1 \<Rightarrow>
               if c = 0x5D then Some ([v], r1)
               else if c = 0x2C \<and> length r1 < length s then consResult v (parseElements r1)
               else None))"
| "parseMembers s =
     (case skipWS s of
        [] \<Rightarrow> None
      | q # r \<Rightarrow>
          if q = 0x22 then
            (case parseChars r of
               None \<Rightarrow> None
             | Some (k, r1) \<Rightarrow>
                 (case skipWS r1 of
                    [] \<Rightarrow> None
                  | c # r2 \<Rightarrow>
                      if c = 0x3A \<and> length r2 < length s then
                        (case parseValue r2 of
                           None \<Rightarrow> None
                         | Some (v, r3) \<Rightarrow>
                             (case skipWS r3 of
                                [] \<Rightarrow> None
                              | d # r4 \<Rightarrow>
                                  if d = 0x7D then Some ([(k, v)], r4)
                                  else if d = 0x2C \<and> length r4 < length s
                                  then consResult (k, v) (parseMembers r4)
                                  else None))
                      else None))
          else None)"
  by pat_completeness auto
termination
proof -
  have shorter: "length r < length s" if "skipWS s = c # r" for s c r
  proof -
    from that have "length (skipWS s) = Suc (length r)"
      by simp
    moreover have "length (skipWS s) \<le> length s"
      by (simp add: skipWS_def length_dropWhile_le)
    ultimately show ?thesis
      by simp
  qed
  show ?thesis
    by (relation "measure (\<lambda>x. case x of Inl s \<Rightarrow> 2 * length s
                                       | Inr (Inl s) \<Rightarrow> 2 * length s + 1
                                       | Inr (Inr s) \<Rightarrow> 2 * length s + 1)")
      (auto dest: shorter)
qed

declare parseValue.simps [simp del] parseElements.simps [simp del] parseMembers.simps [simp del]

text \<open>\<^verbatim>\<open>JSON.parse(s)\<close>: one value, with nothing but white space after it.\<close>

definition JSON_parse :: "jsstring \<Rightarrow> json option" where
  "JSON_parse s =
     (case parseValue s of
        None \<Rightarrow> None
      | Some (v, r) \<Rightarrow> if skipWS r = [] then Some v else None)"

section \<open>JSON.stringify on a list of tasks\<close>

text \<open>
  \<^verbatim>\<open>JSON.stringify(this.tasks)\<close>: an array of objects with the properties \<^verbatim>\<open>id\<close>,
  \<^verbatim>\<open>text\<close>, \<^verbatim>\<open>completed\<close> and \<^verbatim>\<open>createdAt\<close>, in the order in which
  \<^verbatim>\<open>addTask\<close> creates them, without white space.
\<close>

definition hexDigit :: "nat \<Rightarrow> 16 word" where
  "hexDigit d = (if d < 10 then 0x30 + of_nat d else 0x57 + of_nat d)"

definition unicodeEscape :: "16 word \<Rightarrow> jsstring" where
  "unicodeEscape c =
     [0x5C, 0x75, hexDigit (unat c div 4096 mod 16), hexDigit (unat c div 256 mod 16),
      hexDigit (unat c div 16 mod 16), hexDigit (unat c mod 16)]"

definition isLeadingSurrogate :: "16 word \<Rightarrow> bool" where
  "isLeadingSurrogate c \<longleftrightarrow> 0xD800 \<le> c \<and> c \<le> 0xDBFF"

definition isTrailingSurrogate :: "16 word \<Rightarrow> bool" where
  "isTrailingSurrogate c \<longleftrightarrow> 0xDC00 \<le> c \<and> c \<le> 0xDFFF"

text \<open>One code unit that is not part of a surrogate pair, as QuoteJSONString writes it.\<close>

definition quoteUnit :: "16 word \<Rightarrow> jsstring" where
  "quoteUnit c =
     (if c = 0x08 then [0x5C, 0x62]
      else if c = 0x09 then [0x5C, 0x74]
      else if c = 0x0A then [0x5C, 0x6E]
      else if c = 0x0C then [0x5C, 0x66]
      else if c = 0x0D then [0x5C, 0x72]
      else if c = 0x22 then [0x5C, 0x22]
      else if c = 0x5C then [0x5C, 0x5C]
      else if c < 0x20 \<or> isLeadingSurrogate c \<or> isTrailingSurrogate c then unicodeEscape c
      else [c])"

fun quoteUnits :: "jsstring \<Rightarrow> jsstring" where
  "quoteUnits [] = []"
| "quoteUnits [c] = quoteUnit c"
| "quoteUnits (c # d # s) =
     (if isLeadingSurrogate c \<and> isTrailingSurrogate d then c # d # quoteUnits s
      else quoteUnit c @ quoteUnits (d # s))"

definition QuoteJSONString :: "jsstring \<Rightarrow> jsstring" where
  "QuoteJSONString s = [0x22] @ quoteUnits s @ [0x22]"

text \<open>
  The decimal digits of a natural number, and an integer as Number::toString writes it.
  \<^verbatim>\<open>createdAt\<close> is the time value of \<^verbatim>\<open>Date.now()\<close>, an integer of magnitude at
  most 8.64e15, which is written in plain decimal. (From 1e21 on ECMAScript writes an
  exponent, which \<^verbatim>\<open>JSON.parse\<close> reads back to the same number.)
\<close>

fun digits :: "nat \<Rightarrow> jsstring" where
  "digits n = (if n < 10 then [0x30 + of_nat n] else digits (n div 10) @ [0x30 + of_nat (n mod 10)])"

declare digits.simps [simp del]

definition NumberToString :: "int \<Rightarrow> jsstring" where
  "NumberToString i = (if i < 0 then 0x2D # digits (nat (- i)) else digits (nat i))"

definition stringifyTask :: "task \<Rightarrow> jsstring" where
  \<open>stringifyTask t =
     utf16 ''{"id":'' @ QuoteJSONString (task_id t) @
     utf16 '',"text":'' @ QuoteJSONString (task_text t) @
     utf16 '',"completed":'' @ (if completed t then utf16 ''true'' else utf16 ''false'') @
     utf16 '',"createdAt":'' @ NumberToString (createdAt t) @ utf16 ''}''\<close>

fun joinComma :: "jsstring list \<Rightarrow> jsstring" where
  "joinComma [] = []"
| "joinComma [x] = x"
| "joinComma (x # y # xs) = x @ 0x2C # joinComma (y # xs)"

definition JSON_stringify :: "task list \<Rightarrow> jsstring" where
  "JSON_stringify ts = [0x5B] @ joinComma (map stringifyTask ts) @ [0x5D]"

text \<open>The value that a task is in JSON: the object with its four properties.\<close>

definition taskObject :: "task \<Rightarrow> json" where
  "taskObject t =
     JObj [(utf16 ''id'', JStr (task_id t)), (utf16 ''text'', JStr (task_text t)),
           (utf16 ''completed'', JBool (completed t)),
           (utf16 ''createdAt'', JNum (of_int (createdAt t)))]"

section \<open>TaskManager\<close>

text \<open>
  The fields of a \<^verbatim>\<open>TaskManager\<close>, and the \<^verbatim>\<open>localStorage\<close> it works on. The list
  holds task objects as \<^verbatim>\<open>addTask\<close> builds them. Every method takes the state and
  returns its result with the new state.
\<close>

record world =
  storageKey :: jsstring
  tasks :: "task list"
  localStorage :: storage

text \<open>
  \<^verbatim>\<open>load()\<close> reads the key of the manager. The constructor calls it before
  \<open>tasks\<close> is set, so it takes what it reads: the key and the storage. An error of
  \<^verbatim>\<open>getItem\<close> or of \<^verbatim>\<open>JSON.parse\<close> is caught and logged; \<^verbatim>\<open>!raw\<close> holds for
  \<^verbatim>\<open>null\<close> and for the empty string. The elements of the array are returned as
  they were parsed.
\<close>

definition load :: "jsstring \<Rightarrow> storage \<Rightarrow> json list" where
  "load k st =
     (case getItem k st of
        Inl e \<Rightarrow> []
      | Inr None \<Rightarrow> []
      | Inr (Some raw) \<Rightarrow>
          if raw = [] then []
          else (case JSON_parse raw of
                  None \<Rightarrow> []
                | Some parsed \<Rightarrow> (case parsed of JArr xs \<Rightarrow> xs | _ \<Rightarrow> [])))"

text \<open>\<^verbatim>\<open>save()\<close>: the error of \<^verbatim>\<open>setItem\<close> is caught and logged.\<close>

definition save :: "world \<Rightarrow> world" where
  "save w =
     (case setItem (storageKey w) (JSON_stringify (tasks w)) (localStorage w) of
        Inl e \<Rightarrow> w
      | Inr st \<Rightarrow> w\<lparr>localStorage := st\<rparr>)"

text \<open>
  \<^verbatim>\<open>addTask(text)\<close>, on a string (\<^verbatim>\<open>String(text)\<close> is then \<^verbatim>\<open>text\<close>). \<open>rnd\<close> is
  the draw of \<^verbatim>\<open>ID()\<close> and \<open>now\<close> the value of \<^verbatim>\<open>Date.now()\<close>. \<open>None\<close> is
  \<^verbatim>\<open>null\<close>.
\<close>

definition addTask :: "jsstring \<Rightarrow> int \<Rightarrow> jsstring \<Rightarrow> world \<Rightarrow> task option \<times> world" where
  "addTask rnd now txt w =
     (let t = \<lparr> task_id = ID rnd, task_text = trim txt, completed = False, createdAt = now \<rparr>
      in if task_text t = [] then (None, w)
         else (Some t, save (w\<lparr>tasks := t # tasks w\<rparr>)))"

text \<open>
  \<^verbatim>\<open>Object.assign\<close> writes into the object that \<^verbatim>\<open>find\<close> returned: the first
  element of the list with the id.
\<close>

fun assignFirst :: "jsstring \<Rightarrow> updates \<Rightarrow> task list \<Rightarrow> task list" where
  "assignFirst i u [] = []"
| "assignFirst i u (x # xs) =
     (if task_id x = i then Object_assign x u # xs else x # assignFirst i u xs)"

definition updateTask :: "jsstring \<Rightarrow> updates \<Rightarrow> world \<Rightarrow> bool \<times> world" where
  "updateTask i u w =
     (case find (\<lambda>x. task_id x = i) (tasks w) of
        None \<Rightarrow> (False, w)
      | Some t \<Rightarrow> (True, save (w\<lparr>tasks := assignFirst i u (tasks w)\<rparr>)))"

text \<open>
  \<^verbatim>\<open>removeTask(id)\<close> and \<^verbatim>\<open>clearCompleted()\<close>; \<open>count\<close> is the \<^verbatim>\<open>before\<close> of
  the source.
\<close>

definition removeTask :: "jsstring \<Rightarrow> world \<Rightarrow> bool \<times> world" where
  "removeTask i w =
     (let count = length (tasks w);
          w' = w\<lparr>tasks := filter (\<lambda>t. task_id t \<noteq> i) (tasks w)\<rparr>
      in if length (tasks w') \<noteq> count then (True, save w') else (False, w'))"

definition clearCompleted :: "world \<Rightarrow> world" where
  "clearCompleted w =
     (let count = length (tasks w);
          w' = w\<lparr>tasks := filter (\<lambda>t. \<not> completed t) (tasks w)\<rparr>
      in if length (tasks w') \<noteq> count then save w' else w')"

definition getRemainingCount :: "world \<Rightarrow> nat \<times> world" where
  "getRemainingCount w = (length (filter (\<lambda>t. \<not> completed t) (tasks w)), w)"

definition getAll :: "world \<Rightarrow> task list \<times> world" where
  "getAll w = (tasks w, w)"

section \<open>Sequences of operations\<close>

datatype operation =
  AddTask jsstring int jsstring
| UpdateTask jsstring updates
| RemoveTask jsstring
| ClearCompleted

fun perform :: "operation \<Rightarrow> world \<Rightarrow> world" where
  "perform (AddTask rnd now txt) w = snd (addTask rnd now txt w)"
| "perform (UpdateTask i u) w = snd (updateTask i u w)"
| "perform (RemoveTask i) w = snd (removeTask i w)"
| "perform ClearCompleted w = clearCompleted w"

fun run :: "operation list \<Rightarrow> world \<Rightarrow> world" where
  "run [] w = w"
| "run (x # xs) w = run xs (perform x w)"

text \<open>
  An operation is id-safe in a state when it neither reuses nor rewrites an id: an
  \<^verbatim>\<open>addTask\<close> that creates a task draws an id that no held task has, and the
  updates of an \<^verbatim>\<open>updateTask\<close> have no \<^verbatim>\<open>id\<close> field.
\<close>

definition idSafe :: "operation \<Rightarrow> world \<Rightarrow> bool" where
  "idSafe x w =
     (case x of
        AddTask rnd now txt \<Rightarrow> trim txt = [] \<or> ID rnd \<notin> set (map task_id (tasks w))
      | UpdateTask i u \<Rightarrow> upd_id u = None
      | RemoveTask i \<Rightarrow> True
      | ClearCompleted \<Rightarrow> True)"

fun idSafeRun :: "operation list \<Rightarrow> world \<Rightarrow> bool" where
  "idSafeRun [] w = True"
| "idSafeRun (x # xs) w = (idSafe x w \<and> idSafeRun xs (perform x w))"

text \<open>
  A text is valid when it is not empty and trimming leaves it as it is. An operation is
  text-safe when the updates of an \<^verbatim>\<open>updateTask\<close> have no \<^verbatim>\<open>text\<close> field or a
  valid one, which is what the edit handler of the view passes.
\<close>

definition validText :: "jsstring \<Rightarrow> bool" where
  "validText s \<longleftrightarrow> s \<noteq> [] \<and> trim s = s"

definition textSafe :: "operation \<Rightarrow> bool" where
  "textSafe x =
     (case x of
        UpdateTask i u \<Rightarrow> (case upd_text u of None \<Rightarrow> True | Some s \<Rightarrow> validText s)
      | _ \<Rightarrow> True)"

text \<open>A manager with the default key and no task, over an empty storage of 5M code units.\<close>

definition emptyStorage :: storage where
  "emptyStorage = \<lparr> denied = False, quota = 5242880, items = [] \<rparr>"

definition world0 :: world where
  "world0 = \<lparr> storageKey = utf16 ''todo.tasks.v1'', tasks = [], localStorage = emptyStorage \<rparr>"

text \<open>The position of the first task with an id: where \<^verbatim>\<open>find\<close> stops.\<close>

definition firstIndex :: "jsstring \<Rightarrow> task list \<Rightarrow> nat" where
  "firstIndex i xs = length (takeWhile (\<lambda>t. task_id t \<noteq> i) xs)"

text \<open>
  The list of a state after the fields of \<open>u\<close> went into the first task with the id.
\<close>

definition merged :: "jsstring \<Rightarrow> updates \<Rightarrow> task list \<Rightarrow> task list" where
  "merged i u xs = xs[firstIndex i xs := Object_assign (xs ! firstIndex i xs) u]"

text \<open>The storage without the entry of a key.\<close>

definition withoutItem :: "jsstring \<Rightarrow> storage \<Rightarrow> storage" where
  "withoutItem k st = st\<lparr>items := filter (\<lambda>(k', v). k' \<noteq> k) (items st)\<rparr>"

subsection \<open>Example states\<close>

definition noUpdates :: updates where
  "noUpdates = \<lparr> upd_id = None, upd_text = None, upd_completed = None, upd_createdAt = None \<rparr>"

text \<open>A session: add "Buy milk", add "Walk dog", complete "Buy milk".\<close>

definition addMilk :: operation where
  "addMilk = AddTask (utf16 ''0.4fzyo82mvyr'') 1700000000000 (utf16 ''  Buy milk '')"

definition addDog :: operation where
  "addDog = AddTask (utf16 ''0.k1x9q0c3ab'') 1700000000500 (utf16 ''Walk dog'')"

definition toggleMilk :: operation where
  "toggleMilk = UpdateTask (utf16 ''_4fzyo82'') (noUpdates\<lparr>upd_completed := Some True\<rparr>)"

definition milkWorld :: world where
  "milkWorld = run [addMilk] world0"

definition dogWorld :: world where
  "dogWorld = run [addMilk, addDog, toggleMilk] world0"

text \<open>Two tasks whose draws were both 0.5, which is \<^verbatim>\<open>"0.i"\<close> in radix 36.\<close>

definition twinWorld :: world where
  "twinWorld =
     run [AddTask (utf16 ''0.i'') 1700000000000 (utf16 ''Buy milk''),
          AddTask (utf16 ''0.i'') 1700000000500 (utf16 ''Walk dog'')] world0"

text \<open>Updates that rewrite an id, that empty a text, that pad it, and that replace it.\<close>

definition relabelMilk :: operation where
  "relabelMilk = UpdateTask (utf16 ''_4fzyo82'') (noUpdates\<lparr>upd_id := Some (utf16 ''_k1x9q0c'')\<rparr>)"

definition blankMilk :: operation where
  "blankMilk = UpdateTask (utf16 ''_4fzyo82'') (noUpdates\<lparr>upd_text := Some []\<rparr>)"

definition padMilk :: operation where
  "padMilk = UpdateTask (utf16 ''_4fzyo82'') (noUpdates\<lparr>upd_text := Some (utf16 '' Buy milk '')\<rparr>)"

definition renameMilk :: operation where
  "renameMilk =
     UpdateTask (utf16 ''_4fzyo82'') (noUpdates\<lparr>upd_text := Some (utf16 ''Buy oat milk'')\<rparr>)"

text \<open>
  A storage that takes no entry, as a quota that other pages of the origin have used up,
  and the session that adds "Buy milk" over it.
\<close>

definition fullStorage :: storage where
  "fullStorage = emptyStorage\<lparr>quota := 0\<rparr>"

definition unsavedWorld :: world where
  "unsavedWorld = run [addMilk] (world0\<lparr>localStorage := fullStorage\<rparr>)"

definition unsavedPair :: world where
  "unsavedPair = run [addMilk, addDog] (world0\<lparr>localStorage := fullStorage\<rparr>)"

text \<open>
  Storages whose entry is not the text of a list, and two whose entry is the text of a
  list of values that are not tasks.
\<close>

definition deniedStorage :: storage where
  "deniedStorage = emptyStorage\<lparr>denied := True\<rparr>"

definition brokenStorage :: storage where
  \<open>brokenStorage = emptyStorage\<lparr>items := [(utf16 ''todo.tasks.v1'', utf16 ''[{"id":'')]\<rparr>\<close>

definition objectStorage :: storage where
  \<open>objectStorage = emptyStorage\<lparr>items := [(utf16 ''todo.tasks.v1'', utf16 ''{"tasks": []}'')]\<rparr>\<close>

definition nullStorage :: storage where
  "nullStorage = emptyStorage\<lparr>items := [(utf16 ''todo.tasks.v1'', utf16 ''[null]'')]\<rparr>"

definition listStorage :: storage where
  \<open>listStorage = emptyStorage\<lparr>items := [(utf16 ''todo.tasks.v1'', utf16 '' [2, "two"] '')]\<rparr>\<close>

section \<open>Basic facts\<close>

lemmas string_defs = utf16_def trim_def trimStart_def trimEnd_def isTrimmable_def
  isWhiteSpace_def isLineTerminator_def ID_def slice_def

lemma tasks_save [simp]: "tasks (save w) = tasks w"
  by (simp add: save_def split: sum.splits)

lemma storageKey_save [simp]: "storageKey (save w) = storageKey w"
  by (simp add: save_def split: sum.splits)

lemma find_id_None: "find (\<lambda>x. task_id x = i) xs = None \<longleftrightarrow> i \<notin> task_id ` set xs"
  by (induction xs) auto

lemma assignFirst_absent: "i \<notin> task_id ` set xs \<Longrightarrow> assignFirst i u xs = xs"
  by (induction xs) auto

lemma length_assignFirst [simp]: "length (assignFirst i u xs) = length xs"
  by (induction xs) auto

lemma assignFirst_update:
  "assignFirst i u xs =
     (if i \<in> task_id ` set xs
      then xs[firstIndex i xs := Object_assign (xs ! firstIndex i xs) u] else xs)"
  by (induction xs) (auto simp: firstIndex_def)

lemma firstIndex_less: "i \<in> task_id ` set xs \<Longrightarrow> firstIndex i xs < length xs"
  unfolding firstIndex_def by (induction xs) auto

lemma firstIndex_hit: "i \<in> task_id ` set xs \<Longrightarrow> task_id (xs ! firstIndex i xs) = i"
  unfolding firstIndex_def by (induction xs) auto

lemma firstIndex_first: "j < firstIndex i xs \<Longrightarrow> task_id (xs ! j) \<noteq> i"
  unfolding firstIndex_def
  by (induction xs arbitrary: j) (auto simp: nth_Cons split: nat.splits if_splits)

lemma assignFirst_nth_other: "j \<noteq> firstIndex i xs \<Longrightarrow> assignFirst i u xs ! j = xs ! j"
  by (simp add: assignFirst_update)

lemma assignFirst_nth_other_id:
  "j < length xs \<Longrightarrow> task_id (xs ! j) \<noteq> i \<Longrightarrow> assignFirst i u xs ! j = xs ! j"
  by (induction xs arbitrary: j) (auto simp: nth_Cons split: nat.splits)

lemma tasks_addTask:
  "tasks (snd (addTask rnd now txt w)) =
     (if trim txt = [] then tasks w
      else \<lparr> task_id = ID rnd, task_text = trim txt, completed = False, createdAt = now \<rparr> # tasks w)"
  by (simp add: addTask_def Let_def)

lemma tasks_updateTask: "tasks (snd (updateTask i u w)) = assignFirst i u (tasks w)"
  by (simp add: updateTask_def find_id_None assignFirst_absent split: option.splits)

lemma tasks_removeTask: "tasks (snd (removeTask i w)) = filter (\<lambda>t. task_id t \<noteq> i) (tasks w)"
  by (simp add: removeTask_def Let_def)

lemma tasks_clearCompleted: "tasks (clearCompleted w) = filter (\<lambda>t. \<not> completed t) (tasks w)"
  by (simp add: clearCompleted_def Let_def)

lemma length_filter_neq:
  "length (filter (\<lambda>t. task_id t \<noteq> i) xs) + count_list (map task_id xs) i = length xs"
  by (induction xs) auto

lemma filter_id_absent: "i \<notin> task_id ` set xs \<Longrightarrow> filter (\<lambda>t. task_id t \<noteq> i) xs = xs"
  by (induction xs) auto

lemma count_pos: "i \<in> task_id ` set xs \<Longrightarrow> 0 < count_list (map task_id xs) i"
  by (induction xs) auto

lemma count_distinct:
  "distinct (map task_id xs) \<Longrightarrow> i \<in> task_id ` set xs \<Longrightarrow> count_list (map task_id xs) i = 1"
  by (induction xs) (auto simp: count_list_0_iff)

lemma filter_same_length: "length (filter P xs) = length xs \<Longrightarrow> filter P xs = xs"
proof (induction xs)
  case Nil
  then show ?case by simp
next
  case (Cons x xs)
  have "length (filter P xs) \<le> length xs" by (rule length_filter_le)
  with Cons show ?case by (cases "P x") auto
qed

lemma trimEnd_Cons:
  "trimEnd (x # xs) = (if trimEnd xs = [] \<and> isTrimmable x then [] else x # trimEnd xs)"
  by (simp add: trimEnd_def dropWhile_append dropWhile_eq_Nil_conv)

lemma trimStart_trimEnd:
  "xs = [] \<or> \<not> isTrimmable (hd xs) \<Longrightarrow> trimStart (trimEnd xs) = trimEnd xs"
  by (cases xs) (simp_all add: trimEnd_Cons trimStart_def, simp add: trimEnd_def)

lemma trimEnd_idem: "trimEnd (trimEnd xs) = trimEnd xs"
  by (simp add: trimEnd_def)

lemma hd_trimStart: "trimStart s = [] \<or> \<not> isTrimmable (hd (trimStart s))"
proof (cases "trimStart s")
  case Nil
  then show ?thesis by simp
next
  case (Cons c cs)
  then have "dropWhile isTrimmable s \<noteq> []"
    by (simp add: trimStart_def)
  then show ?thesis
    by (simp add: trimStart_def hd_dropWhile)
qed

lemma trim_idem: "trim (trim s) = trim s"
  by (simp add: trim_def trimStart_trimEnd [OF hd_trimStart] trimEnd_idem)

lemma validText_trim: "trim s \<noteq> [] \<Longrightarrow> validText (trim s)"
  by (simp add: validText_def trim_idem)

lemma ids_assignFirst:
  "upd_id u = None \<Longrightarrow> map task_id (assignFirst i u xs) = map task_id xs"
  by (induction xs) (auto simp: Object_assign_def)

lemma distinct_perform:
  "distinct (map task_id (tasks w)) \<Longrightarrow> idSafe x w \<Longrightarrow>
   distinct (map task_id (tasks (perform x w)))"
  by (cases x)
    (auto simp: idSafe_def tasks_addTask tasks_updateTask tasks_removeTask tasks_clearCompleted
      ids_assignFirst distinct_map_filter)

lemma distinct_run:
  "idSafeRun xs w \<Longrightarrow> distinct (map task_id (tasks w)) \<Longrightarrow>
   distinct (map task_id (tasks (run xs w)))"
  by (induction xs arbitrary: w) (auto simp: distinct_perform)

lemma texts_assignFirst:
  "list_all (\<lambda>t. validText (task_text t)) xs \<Longrightarrow>
   (case upd_text u of None \<Rightarrow> True | Some s \<Rightarrow> validText s) \<Longrightarrow>
   list_all (\<lambda>t. validText (task_text t)) (assignFirst i u xs)"
  by (induction xs) (auto simp: Object_assign_def split: option.splits)

lemma texts_perform:
  "list_all (\<lambda>t. validText (task_text t)) (tasks w) \<Longrightarrow> textSafe x \<Longrightarrow>
   list_all (\<lambda>t. validText (task_text t)) (tasks (perform x w))"
proof (cases x)
  case (AddTask rnd now s)
  assume "list_all (\<lambda>t. validText (task_text t)) (tasks w)"
  with AddTask show ?thesis
    by (simp add: tasks_addTask validText_trim)
next
  case (UpdateTask i u)
  assume "list_all (\<lambda>t. validText (task_text t)) (tasks w)" "textSafe x"
  with UpdateTask show ?thesis
    by (simp add: tasks_updateTask texts_assignFirst textSafe_def)
next
  case (RemoveTask i)
  assume "list_all (\<lambda>t. validText (task_text t)) (tasks w)"
  with RemoveTask show ?thesis
    by (simp add: tasks_removeTask list_all_iff)
next
  case ClearCompleted
  assume "list_all (\<lambda>t. validText (task_text t)) (tasks w)"
  with ClearCompleted show ?thesis
    by (simp add: tasks_clearCompleted list_all_iff)
qed

lemma texts_run:
  "list_all textSafe xs \<Longrightarrow> list_all (\<lambda>t. validText (task_text t)) (tasks w) \<Longrightarrow>
   list_all (\<lambda>t. validText (task_text t)) (tasks (run xs w))"
  by (induction xs arbitrary: w) (auto simp: texts_perform)

lemma milk_tasks:
  "tasks milkWorld =
     [\<lparr> task_id = utf16 ''_4fzyo82'', task_text = utf16 ''Buy milk'', completed = False,
        createdAt = 1700000000000 \<rparr>]"
  by (simp add: milkWorld_def addMilk_def tasks_addTask world0_def string_defs)

lemma dog_tasks:
  "tasks dogWorld =
     [\<lparr> task_id = utf16 ''_k1x9q0c'', task_text = utf16 ''Walk dog'', completed = False,
        createdAt = 1700000000500 \<rparr>,
      \<lparr> task_id = utf16 ''_4fzyo82'', task_text = utf16 ''Buy milk'', completed = True,
        createdAt = 1700000000000 \<rparr>]"
  by (simp add: dogWorld_def addMilk_def addDog_def toggleMilk_def tasks_addTask
      tasks_updateTask Object_assign_def noUpdates_def world0_def string_defs)

lemma twin_tasks:
  "tasks twinWorld =
     [\<lparr> task_id = utf16 ''_i'', task_text = utf16 ''Walk dog'', completed = False,
        createdAt = 1700000000500 \<rparr>,
      \<lparr> task_id = utf16 ''_i'', task_text = utf16 ''Buy milk'', completed = False,
        createdAt = 1700000000000 \<rparr>]"
  by (simp add: twinWorld_def tasks_addTask world0_def string_defs)

section \<open>Facts about JSON.parse\<close>

subsection \<open>Strings that QuoteJSONString wrote\<close>

lemma parseChars_quote: "parseChars (0x22 # s) = Some ([], s)"
  by (simp add: parseChars.simps(2))

lemma parseChars_plain:
  "c \<noteq> 0x22 \<Longrightarrow> c \<noteq> 0x5C \<Longrightarrow> \<not> c < 0x20 \<Longrightarrow> parseChars (c # s) = consResult c (parseChars s)"
  by (simp add: parseChars.simps(2))

lemma parseChars_escape:
  "e \<noteq> 0x75 \<Longrightarrow> escapeValue e = Some v \<Longrightarrow> parseChars (0x5C # e # s) = consResult v (parseChars s)"
  by (simp add: parseChars.simps(2))

lemma parseChars_hex:
  "hex4 h1 h2 h3 h4 = Some v \<Longrightarrow>
   parseChars (0x5C # 0x75 # h1 # h2 # h3 # h4 # s) = consResult v (parseChars s)"
  by (simp add: parseChars.simps(2))

lemma nibble_cases:
  "d < 16 \<Longrightarrow> d = 0 \<or> d = 1 \<or> d = 2 \<or> d = 3 \<or> d = 4 \<or> d = 5 \<or> d = 6 \<or> d = 7 \<or> d = 8 \<or>
     d = 9 \<or> d = 10 \<or> d = 11 \<or> d = 12 \<or> d = 13 \<or> d = 14 \<or> d = (15::nat)"
  by arith

lemma hexValue_hexDigit:
  assumes "d < 16"
  shows "hexValue (hexDigit d) = Some d"
  using nibble_cases [OF assms] by (elim disjE) (simp_all add: hexValue_def hexDigit_def)

lemma nibbles_aux:
  fixes n q1 q2 x0 x1 x2 x3 :: nat
  shows "16 * q1 + x0 = n \<Longrightarrow> 16 * q2 + x1 = q1 \<Longrightarrow> 16 * x3 + x2 = q2 \<Longrightarrow>
     ((x3 * 16 + x2) * 16 + x1) * 16 + x0 = n"
  by auto

lemma nibbles:
  fixes n :: nat
  assumes "n < 65536"
  shows "((n div 4096 mod 16 * 16 + n div 256 mod 16) * 16 + n div 16 mod 16) * 16 + n mod 16 = n"
proof -
  have a: "16 * (n div 16) + n mod 16 = n"
    by (rule mult_div_mod_eq)
  have "n div 256 = n div 16 div 16"
    using div_mult2_eq [of n 16 16] by simp
  then have b: "16 * (n div 256) + n div 16 mod 16 = n div 16"
    using mult_div_mod_eq [of 16 "n div 16"] by simp
  have "n div 4096 = n div 256 div 16"
    using div_mult2_eq [of n 256 16] by simp
  then have c: "16 * (n div 4096) + n div 256 mod 16 = n div 256"
    using mult_div_mod_eq [of 16 "n div 256"] by simp
  from assms have "n div 4096 < 16"
    by (simp add: less_mult_imp_div_less)
  then have d: "n div 4096 mod 16 = n div 4096"
    by simp
  show ?thesis
    unfolding d by (rule nibbles_aux [OF a b c])
qed

lemma unat_16_bound: "unat (c :: 16 word) < 65536"
  using unsigned_less [of c, where 'a = nat] by simp

lemma hex4_unicodeEscape:
  "hex4 (hexDigit (unat c div 4096 mod 16)) (hexDigit (unat c div 256 mod 16))
        (hexDigit (unat c div 16 mod 16)) (hexDigit (unat c mod 16)) = Some c"
proof -
  have "of_nat (((unat c div 4096 mod 16 * 16 + unat c div 256 mod 16) * 16 + unat c div 16 mod 16) * 16
      + unat c mod 16) = (of_nat (unat c) :: 16 word)"
    by (simp only: nibbles [OF unat_16_bound])
  then show ?thesis
    by (simp add: hex4_def hexValue_hexDigit del: of_nat_add of_nat_mult)
qed

lemma parseChars_unicodeEscape:
  "parseChars (unicodeEscape c @ s) = consResult c (parseChars s)"
  by (simp add: unicodeEscape_def parseChars_hex [OF hex4_unicodeEscape])

lemma parseChars_quoteUnit: "parseChars (quoteUnit c @ s) = consResult c (parseChars s)"
  by (simp add: quoteUnit_def parseChars_unicodeEscape parseChars_escape parseChars_plain escapeValue_def)

lemma surrogate_plain:
  "isLeadingSurrogate c \<or> isTrailingSurrogate c \<Longrightarrow> c \<noteq> 0x22 \<and> c \<noteq> 0x5C \<and> \<not> c < 0x20"
  by (auto simp: isLeadingSurrogate_def isTrailingSurrogate_def word_le_nat_alt word_less_nat_alt)

lemma parseChars_quoteUnits:
  "parseChars (quoteUnits s @ r) =
     (case parseChars r of None \<Rightarrow> None | Some (t, r') \<Rightarrow> Some (s @ t, r'))"
proof (induction s rule: quoteUnits.induct)
  case 1
  then show ?case by (simp split: option.splits)
next
  case (2 c)
  then show ?case by (simp add: parseChars_quoteUnit split: option.splits)
next
  case (3 c d s)
  show ?case
  proof (cases "isLeadingSurrogate c \<and> isTrailingSurrogate d")
    case True
    then have pc: "c \<noteq> 0x22 \<and> c \<noteq> 0x5C \<and> \<not> c < 0x20" and pd: "d \<noteq> 0x22 \<and> d \<noteq> 0x5C \<and> \<not> d < 0x20"
      using surrogate_plain by blast+
    have "parseChars (quoteUnits (c # d # s) @ r) = consResult c (consResult d (parseChars (quoteUnits s @ r)))"
      using True pc pd by (simp add: parseChars_plain)
    also have "\<dots> = (case parseChars r of None \<Rightarrow> None | Some (t, r') \<Rightarrow> Some ((c # d # s) @ t, r'))"
      using 3(1) [OF True] by (simp split: option.splits)
    finally show ?thesis .
  next
    case False
    then have "parseChars (quoteUnits (c # d # s) @ r) = consResult c (parseChars (quoteUnits (d # s) @ r))"
      by (auto simp: parseChars_quoteUnit)
    also have "\<dots> = (case parseChars r of None \<Rightarrow> None | Some (t, r') \<Rightarrow> Some ((c # d # s) @ t, r'))"
      using 3(2) [OF False] by (simp split: option.splits)
    finally show ?thesis .
  qed
qed

lemma parseChars_QuoteJSONString:
  "parseChars (tl (QuoteJSONString s) @ r) = Some (s, r)"
  by (simp add: QuoteJSONString_def parseChars_quoteUnits parseChars_quote)

subsection \<open>Numbers that Number::toString wrote\<close>

lemma digit_cases:
  "d < 10 \<Longrightarrow> d = 0 \<or> d = 1 \<or> d = 2 \<or> d = 3 \<or> d = 4 \<or> d = 5 \<or> d = 6 \<or> d = 7 \<or> d = 8 \<or> d = (9::nat)"
  by arith

lemma digit_unit:
  assumes "d < 10"
  shows "isDigit (0x30 + of_nat d) \<and> unat (0x30 + of_nat d :: 16 word) - 0x30 = d \<and>
         ((0x30 + of_nat d :: 16 word) = 0x30 \<longleftrightarrow> d = 0)"
  using digit_cases [OF assms] by (elim disjE) (simp_all add: isDigit_def)

lemma digit_nonzero:
  assumes "d < 10" and "0 < d"
  shows "(of_nat d :: 16 word) \<noteq> 0"
  using digit_cases [OF assms(1)] assms(2) by (elim disjE) simp_all

lemma digits_nonempty: "digits n \<noteq> []"
  by (subst digits.simps) simp

lemma digits_isDigit: "c \<in> set (digits n) \<Longrightarrow> isDigit c"
proof (induction n arbitrary: c rule: digits.induct)
  case (1 n)
  show ?case
  proof (cases "n < 10")
    case True
    with 1(2) show ?thesis
      by (subst (asm) digits.simps) (simp add: digit_unit)
  next
    case False
    with 1(2) have "c \<in> set (digits (n div 10)) \<or> c = 0x30 + of_nat (n mod 10)"
      by (subst (asm) digits.simps) auto
    with 1(1) [OF False] show ?thesis
      by (auto simp: digit_unit)
  qed
qed

lemma digitsValue_snoc: "digitsValue (ds @ [c]) = 10 * digitsValue ds + (unat c - 0x30)"
  by (simp add: digitsValue_def)

lemma digitsValue_digits: "digitsValue (digits n) = n"
proof (induction n rule: digits.induct)
  case (1 n)
  show ?case
  proof (cases "n < 10")
    case True
    then show ?thesis
      by (subst digits.simps) (simp add: digitsValue_def digit_unit)
  next
    case False
    then have "digitsValue (digits n) = 10 * digitsValue (digits (n div 10)) + n mod 10"
      by (subst digits.simps) (simp add: digitsValue_snoc digit_unit)
    with 1 [OF False] show ?thesis
      by simp
  qed
qed

lemma hd_digits: "0 < n \<Longrightarrow> hd (digits n) \<noteq> 0x30"
proof (induction n rule: digits.induct)
  case (1 n)
  show ?case
  proof (cases "n < 10")
    case True
    with 1(2) show ?thesis
      by (subst digits.simps) (simp add: digit_nonzero)
  next
    case False
    then have "hd (digits n) = hd (digits (n div 10))"
      by (subst digits.simps) (simp add: digits_nonempty)
    with 1(1) [OF False] False show ?thesis
      by simp
  qed
qed

lemma digits_zero: "digits 0 = [0x30]"
  by (subst digits.simps) simp

lemma takeWhile_digits:
  "\<not> isDigit c \<Longrightarrow> takeWhile isDigit (digits n @ c # r) = digits n"
  by (simp add: takeWhile_append digits_isDigit)

lemma dropWhile_digits:
  "\<not> isDigit c \<Longrightarrow> dropWhile isDigit (digits n @ c # r) = c # r"
  by (simp add: dropWhile_append digits_isDigit)

lemma parseInt_digits:
  assumes "\<not> isDigit c"
  shows "parseInt (digits n @ c # r) = Some (n, c # r)"
proof (cases "n = 0")
  case True
  then show ?thesis
    by (simp add: digits_zero parseInt_def)
next
  case False
  obtain d ds where ds: "digits n = d # ds"
    using digits_nonempty [of n] by (cases "digits n") auto
  with False have "d \<noteq> 0x30" "isDigit d"
    using hd_digits [of n] digits_isDigit [of d n] by auto
  moreover have "takeWhile isDigit (d # ds @ c # r) = digits n" "dropWhile isDigit (d # ds @ c # r) = c # r"
    using takeWhile_digits [OF assms, of n r] dropWhile_digits [OF assms, of n r] ds by auto
  moreover have "digitsValue (digits n) = n"
    by (rule digitsValue_digits)
  ultimately show ?thesis
    by (simp add: parseInt_def ds del: takeWhile.simps dropWhile.simps)
qed

lemma parseFrac_end: "endsNumber c \<Longrightarrow> parseFrac (c # r) = Some (0, c # r)"
  by (simp add: parseFrac_def endsNumber_def)

lemma parseExp_end: "endsNumber c \<Longrightarrow> parseExp (c # r) = Some (0, c # r)"
  by (simp add: parseExp_def endsNumber_def)

lemma isDigit_not_minus: "isDigit c \<Longrightarrow> c \<noteq> 0x2D"
  by (auto simp: isDigit_def)

lemma parseNumber_NumberToString:
  assumes "endsNumber c"
  shows "parseNumber (NumberToString i @ c # r) = Some (of_int i, c # r)"
proof -
  from assms have nd: "\<not> isDigit c"
    by (simp add: endsNumber_def)
  show ?thesis
  proof (cases "i < 0")
    case True
    then show ?thesis
      by (simp add: parseNumber_def NumberToString_def parseInt_digits [OF nd]
          parseFrac_end [OF assms] parseExp_end [OF assms] scale_def)
  next
    case False
    obtain d ds where ds: "digits (nat i) = d # ds"
      using digits_nonempty [of "nat i"] by (cases "digits (nat i)") auto
    then have "d \<noteq> 0x2D"
      using digits_isDigit [of d "nat i"] isDigit_not_minus by auto
    then have neg: "(case digits (nat i) @ c # r of [] \<Rightarrow> False | a # x \<Rightarrow> a = 0x2D) = False"
      by (simp add: ds)
    from False show ?thesis
      by (simp add: parseNumber_def NumberToString_def neg parseInt_digits [OF nd]
          parseFrac_end [OF assms] parseExp_end [OF assms] scale_def)
  qed
qed

subsection \<open>Values, members and elements\<close>

lemma skipWS_Cons: "\<not> isJSONWhiteSpace c \<Longrightarrow> skipWS (c # s) = c # s"
  by (simp add: skipWS_def)

lemma QuoteJSONString_Cons: "QuoteJSONString s = 0x22 # quoteUnits s @ [0x22]"
  by (simp add: QuoteJSONString_def)

lemma ws_simps [simp]:
  "\<not> isJSONWhiteSpace 0x22" "\<not> isJSONWhiteSpace 0x7B" "\<not> isJSONWhiteSpace 0x5B"
  "\<not> isJSONWhiteSpace 0x2C" "\<not> isJSONWhiteSpace 0x3A" "\<not> isJSONWhiteSpace 0x7D"
  "\<not> isJSONWhiteSpace 0x5D" "\<not> isJSONWhiteSpace 0x74" "\<not> isJSONWhiteSpace 0x66"
  by (simp_all add: isJSONWhiteSpace_def)

lemma parseValue_string: "parseValue (QuoteJSONString s @ r) = Some (JStr s, r)"
  by (subst parseValue.simps)
    (simp add: QuoteJSONString_Cons skipWS_Cons parseChars_quoteUnits parseChars_quote)

lemma parseValue_true: "parseValue (utf16 ''true'' @ r) = Some (JBool True, r)"
  by (subst parseValue.simps) (simp add: utf16_def skipWS_Cons)

lemma parseValue_false: "parseValue (utf16 ''false'' @ r) = Some (JBool False, r)"
  by (subst parseValue.simps) (simp add: utf16_def skipWS_Cons)

lemma digit_start:
  "isDigit c \<or> c = 0x2D \<Longrightarrow>
   \<not> isJSONWhiteSpace c \<and> c \<noteq> 0x7B \<and> c \<noteq> 0x5B \<and> c \<noteq> 0x22 \<and> c \<noteq> 0x74 \<and> c \<noteq> 0x66 \<and> c \<noteq> 0x6E"
  by (auto simp: isDigit_def isJSONWhiteSpace_def)

lemma NumberToString_start:
  "\<exists>d ds. NumberToString i = d # ds \<and> (isDigit d \<or> d = 0x2D)"
proof (cases "i < 0")
  case True
  then show ?thesis by (simp add: NumberToString_def)
next
  case False
  obtain d ds where "digits (nat i) = d # ds"
    using digits_nonempty [of "nat i"] by (cases "digits (nat i)") auto
  with False show ?thesis
    using digits_isDigit [of d "nat i"] by (simp add: NumberToString_def)
qed

lemma parseValue_number:
  assumes "endsNumber c"
  shows "parseValue (NumberToString i @ c # r) = Some (JNum (of_int i), c # r)"
proof -
  obtain d ds where ds: "NumberToString i = d # ds" and d: "isDigit d \<or> d = 0x2D"
    using NumberToString_start by blast
  note st = digit_start [OF d]
  have "parseValue (d # ds @ c # r) = mapResult JNum (parseNumber (d # ds @ c # r))"
    by (subst parseValue.simps) (simp add: skipWS_Cons st)
  also have "parseNumber (d # ds @ c # r) = Some (of_int i, c # r)"
    using parseNumber_NumberToString [OF assms, of i r] by (simp add: ds)
  finally show ?thesis
    by (simp add: ds)
qed

lemma parseMembers_more:
  assumes "parseValue (vt @ 0x2C # rest) = Some (v, 0x2C # rest)"
  shows "parseMembers (QuoteJSONString k @ 0x3A # vt @ 0x2C # rest) =
         consResult (k, v) (parseMembers rest)"
  by (subst parseMembers.simps)
    (simp add: QuoteJSONString_Cons skipWS_Cons parseChars_quoteUnits parseChars_quote assms)

lemma parseMembers_last:
  assumes "parseValue (vt @ 0x7D # rest) = Some (v, 0x7D # rest)"
  shows "parseMembers (QuoteJSONString k @ 0x3A # vt @ 0x7D # rest) = Some ([(k, v)], rest)"
  by (subst parseMembers.simps)
    (simp add: QuoteJSONString_Cons skipWS_Cons parseChars_quoteUnits parseChars_quote assms)

lemma parseElements_more:
  assumes "parseValue (vt @ 0x2C # rest) = Some (v, 0x2C # rest)"
  shows "parseElements (vt @ 0x2C # rest) = consResult v (parseElements rest)"
  by (subst parseElements.simps) (simp add: skipWS_Cons assms)

lemma parseElements_last:
  assumes "parseValue (vt @ 0x5D # rest) = Some (v, 0x5D # rest)"
  shows "parseElements (vt @ 0x5D # rest) = Some ([v], rest)"
  by (subst parseElements.simps) (simp add: skipWS_Cons assms)

subsection \<open>The text of a list of tasks\<close>

lemma stringifyTask_members:
  \<open>stringifyTask t =
     0x7B # QuoteJSONString (utf16 ''id'') @ 0x3A # QuoteJSONString (task_id t) @
     0x2C # QuoteJSONString (utf16 ''text'') @ 0x3A # QuoteJSONString (task_text t) @
     0x2C # QuoteJSONString (utf16 ''completed'') @ 0x3A #
       (if completed t then utf16 ''true'' else utf16 ''false'') @
     0x2C # QuoteJSONString (utf16 ''createdAt'') @ 0x3A # NumberToString (createdAt t) @ [0x7D]\<close>
proof -
  have k: \<open>utf16 ''{"id":'' = 0x7B # QuoteJSONString (utf16 ''id'') @ [0x3A]\<close>
    \<open>utf16 '',"text":'' = 0x2C # QuoteJSONString (utf16 ''text'') @ [0x3A]\<close>
    \<open>utf16 '',"completed":'' = 0x2C # QuoteJSONString (utf16 ''completed'') @ [0x3A]\<close>
    \<open>utf16 '',"createdAt":'' = 0x2C # QuoteJSONString (utf16 ''createdAt'') @ [0x3A]\<close>
    \<open>utf16 ''}'' = [0x7D]\<close>
    by (simp_all add: utf16_def QuoteJSONString_def quoteUnit_def isLeadingSurrogate_def
        isTrailingSurrogate_def)
  show ?thesis
    unfolding stringifyTask_def k by simp
qed

lemma properties_task:
  "properties [(utf16 ''id'', a), (utf16 ''text'', b), (utf16 ''completed'', c),
               (utf16 ''createdAt'', d)] =
   [(utf16 ''id'', a), (utf16 ''text'', b), (utf16 ''completed'', c), (utf16 ''createdAt'', d)]"
  by (simp add: properties_def utf16_def)

lemma endsNumber_brace: "endsNumber 0x7D"
  by (simp add: endsNumber_def isDigit_def)

lemma parseValue_bool:
  "parseValue ((if b then utf16 ''true'' else utf16 ''false'') @ r) = Some (JBool b, r)"
  by (simp add: parseValue_true parseValue_false)

lemma parseMembers_task:
  "parseMembers (tl (stringifyTask t) @ r) =
     Some ([(utf16 ''id'', JStr (task_id t)), (utf16 ''text'', JStr (task_text t)),
            (utf16 ''completed'', JBool (completed t)),
            (utf16 ''createdAt'', JNum (of_int (createdAt t)))], r)"
proof -
  have "parseMembers (QuoteJSONString (utf16 ''createdAt'') @ 0x3A #
          NumberToString (createdAt t) @ 0x7D # r) =
        Some ([(utf16 ''createdAt'', JNum (of_int (createdAt t)))], r)"
    by (rule parseMembers_last) (rule parseValue_number [OF endsNumber_brace])
  then have "parseMembers (QuoteJSONString (utf16 ''completed'') @ 0x3A #
          (if completed t then utf16 ''true'' else utf16 ''false'') @ 0x2C #
          QuoteJSONString (utf16 ''createdAt'') @ 0x3A #
          NumberToString (createdAt t) @ 0x7D # r) =
        Some ([(utf16 ''completed'', JBool (completed t)),
               (utf16 ''createdAt'', JNum (of_int (createdAt t)))], r)"
    by (simp only: parseMembers_more [OF parseValue_bool] consResult.simps)
  then have "parseMembers (QuoteJSONString (utf16 ''text'') @ 0x3A #
          QuoteJSONString (task_text t) @ 0x2C #
          QuoteJSONString (utf16 ''completed'') @ 0x3A #
          (if completed t then utf16 ''true'' else utf16 ''false'') @ 0x2C #
          QuoteJSONString (utf16 ''createdAt'') @ 0x3A #
          NumberToString (createdAt t) @ 0x7D # r) =
        Some ([(utf16 ''text'', JStr (task_text t)), (utf16 ''completed'', JBool (completed t)),
               (utf16 ''createdAt'', JNum (of_int (createdAt t)))], r)"
    by (simp only: parseMembers_more [OF parseValue_string] consResult.simps)
  then have "parseMembers (QuoteJSONString (utf16 ''id'') @ 0x3A #
          QuoteJSONString (task_id t) @ 0x2C #
          QuoteJSONString (utf16 ''text'') @ 0x3A #
          QuoteJSONString (task_text t) @ 0x2C #
          QuoteJSONString (utf16 ''completed'') @ 0x3A #
          (if completed t then utf16 ''true'' else utf16 ''false'') @ 0x2C #
          QuoteJSONString (utf16 ''createdAt'') @ 0x3A #
          NumberToString (createdAt t) @ 0x7D # r) =
        Some ([(utf16 ''id'', JStr (task_id t)), (utf16 ''text'', JStr (task_text t)),
               (utf16 ''completed'', JBool (completed t)),
               (utf16 ''createdAt'', JNum (of_int (createdAt t)))], r)"
    by (simp only: parseMembers_more [OF parseValue_string] consResult.simps)
  then show ?thesis
    by (simp add: stringifyTask_members)
qed

lemma stringifyTask_start: "\<exists>s. stringifyTask t = 0x7B # 0x22 # s"
  by (simp add: stringifyTask_members QuoteJSONString_Cons)

lemma parseValue_task: "parseValue (stringifyTask t @ r) = Some (taskObject t, r)"
proof -
  obtain s where s: "stringifyTask t = 0x7B # 0x22 # s"
    using stringifyTask_start by blast
  have "parseValue (0x7B # 0x22 # s @ r) =
      mapResult (\<lambda>kvs. JObj (properties kvs)) (parseMembers (0x22 # s @ r))"
    by (subst parseValue.simps) (simp add: skipWS_Cons)
  moreover have "parseMembers (0x22 # s @ r) =
      Some ([(utf16 ''id'', JStr (task_id t)), (utf16 ''text'', JStr (task_text t)),
             (utf16 ''completed'', JBool (completed t)),
             (utf16 ''createdAt'', JNum (of_int (createdAt t)))], r)"
    using parseMembers_task [of t r] by (simp add: s)
  ultimately show ?thesis
    by (simp add: s taskObject_def properties_task)
qed

lemma parseElements_tasks:
  "parseElements (joinComma (map stringifyTask (t # ts)) @ 0x5D # r) =
     Some (map taskObject (t # ts), r)"
proof (induction ts arbitrary: t)
  case Nil
  show ?case
    using parseElements_last [OF parseValue_task] by simp
next
  case (Cons u us)
  have "parseElements (stringifyTask t @ 0x2C # joinComma (map stringifyTask (u # us)) @ 0x5D # r) =
      consResult (taskObject t) (parseElements (joinComma (map stringifyTask (u # us)) @ 0x5D # r))"
    by (rule parseElements_more) (rule parseValue_task)
  with Cons [of u] show ?case
    by simp
qed

lemma parseValue_tasks: "parseValue (JSON_stringify ts @ r) = Some (JArr (map taskObject ts), r)"
proof (cases ts)
  case Nil
  then show ?thesis
    by (subst parseValue.simps) (simp add: JSON_stringify_def skipWS_Cons)
next
  case (Cons t us)
  obtain s where s: "stringifyTask t = 0x7B # 0x22 # s"
    using stringifyTask_start by blast
  then obtain s' where s': "joinComma (map stringifyTask (t # us)) = 0x7B # s'"
    by (cases us) auto
  have "parseValue (0x5B # 0x7B # s' @ 0x5D # r) = mapResult JArr (parseElements (0x7B # s' @ 0x5D # r))"
    by (subst parseValue.simps) (simp add: skipWS_Cons)
  moreover have "parseElements (0x7B # s' @ 0x5D # r) = Some (map taskObject (t # us), r)"
    using parseElements_tasks [of t us r] s' by simp
  ultimately show ?thesis
    using s' by (simp add: JSON_stringify_def Cons)
qed

lemma JSON_parse_stringify: "JSON_parse (JSON_stringify ts) = Some (JArr (map taskObject ts))"
  using parseValue_tasks [of ts "[]"] by (simp add: JSON_parse_def skipWS_def)

lemma map_of_put: "map_of (put k v kvs) k = Some v"
  by (induction kvs) auto

lemma JSON_stringify_nonempty: "JSON_stringify ts \<noteq> []"
  by (simp add: JSON_stringify_def)

lemma inj_taskObject: "taskObject t = taskObject t' \<Longrightarrow> t = t'"
  by (cases t, cases t') (simp add: taskObject_def)

subsection \<open>Every parser consumes input\<close>

lemma length_skipWS: "length (skipWS s) \<le> length s"
  by (simp add: skipWS_def length_dropWhile_le)

lemma consResult_Some: "consResult x p = Some (ys, r) \<Longrightarrow> \<exists>xs. p = Some (xs, r)"
  by (cases p) auto

lemma mapResult_Some: "mapResult f p = Some (y, r) \<Longrightarrow> \<exists>x. p = Some (x, r)"
  by (cases p) auto

lemma parseChars_consumes: "parseChars s = Some (k, r) \<Longrightarrow> length r < length s"
proof (induction "length s" arbitrary: s k rule: less_induct)
  case less
  have IH: "length r < n" if "parseChars t = Some (k', r)" "length t < length s" "length s \<le> n"
    for t k' n
    using less.hyps [OF that(2) that(1)] that(2,3) by simp
  show ?case
  proof (cases s)
    case Nil
    with less.prems show ?thesis by simp
  next
    case (Cons c t)
    with less.prems show ?thesis
      by (auto simp: parseChars.simps(2) split: if_splits list.splits option.splits
          dest!: consResult_Some elim!: IH)
  qed
qed

lemma stripPrefix_consumes: "stripPrefix p s = Some r \<Longrightarrow> length r \<le> length s"
  by (induction p s rule: stripPrefix.induct) (auto split: if_splits)

lemma parseInt_consumes: "parseInt s = Some (n, r) \<Longrightarrow> length r < length s"
  by (auto simp: parseInt_def less_Suc_eq_le length_dropWhile_le split: list.splits if_splits)

lemma parseFrac_consumes: "parseFrac s = Some (f, r) \<Longrightarrow> length r \<le> length s"
  by (auto simp: parseFrac_def Let_def le_SucI length_dropWhile_le split: list.splits if_splits)

lemma parseExp_consumes: "parseExp s = Some (e, r) \<Longrightarrow> length r \<le> length s"
proof -
  assume a: "parseExp s = Some (e, r)"
  show ?thesis
  proof (cases s)
    case Nil
    with a show ?thesis by (simp add: parseExp_def)
  next
    case (Cons c t)
    show ?thesis
    proof (cases "c = 0x65 \<or> c = 0x45")
      case False
      with a Cons show ?thesis by (simp add: parseExp_def)
    next
      case True
      define t2 where "t2 = (case t of [] \<Rightarrow> t | g # r1 \<Rightarrow> if g = 0x2B \<or> g = 0x2D then r1 else t)"
      have "length t2 \<le> length t"
        by (simp add: t2_def split: list.splits)
      moreover have "length (dropWhile isDigit t2) \<le> length t2"
        by (rule length_dropWhile_le)
      moreover from a Cons True have "r = dropWhile isDigit t2"
        by (auto simp: parseExp_def Let_def t2_def split: if_splits)
      ultimately show ?thesis
        using Cons by simp
    qed
  qed
qed

lemma parseNumber_consumes: "parseNumber s = Some (x, r) \<Longrightarrow> length r < length s"
proof -
  assume a: "parseNumber s = Some (x, r)"
  define s1 where "s1 = (if (case s of [] \<Rightarrow> False | c # r \<Rightarrow> c = 0x2D) then tl s else s)"
  have l1: "length s1 \<le> length s"
    by (simp add: s1_def)
  from a obtain n s2 f s3 e where
    "parseInt s1 = Some (n, s2)" "parseFrac s2 = Some (f, s3)" "parseExp s3 = Some (e, r)"
    by (auto simp: parseNumber_def Let_def s1_def split: option.splits)
  then have "length s2 < length s1" "length s3 \<le> length s2" "length r \<le> length s3"
    by (auto dest: parseInt_consumes parseFrac_consumes parseExp_consumes)
  with l1 show ?thesis
    by simp
qed

lemma skipWS_Cons_le: "skipWS s = c # r \<Longrightarrow> length r < length s"
  using length_skipWS [of s] by simp

lemma parse_consumes:
  "(\<forall>v r. parseValue s = Some (v, r) \<longrightarrow> length r < length s) \<and>
   (\<forall>vs r. parseElements s = Some (vs, r) \<longrightarrow> length r < length s) \<and>
   (\<forall>kvs r. parseMembers s = Some (kvs, r) \<longrightarrow> length r < length s)"
proof (induction "length s" arbitrary: s rule: less_induct)
  case less
  have IHv: "length r < n" if "parseValue t = Some (v, r)" "length t < length s" "length s \<le> n"
    for t v r n
    using less.hyps [OF that(2)] that by fastforce
  have IHe: "length r < n" if "parseElements t = Some (vs, r)" "length t < length s" "length s \<le> n"
    for t vs r n
    using less.hyps [OF that(2)] that by fastforce
  have IHm: "length r < n" if "parseMembers t = Some (kvs, r)" "length t < length s" "length s \<le> n"
    for t kvs r n
    using less.hyps [OF that(2)] that by fastforce
  have v: "length r < length s" if a: "parseValue s = Some (v, r)" for v r
  proof -
    from a obtain c r0 where s0: "skipWS s = c # r0"
      by (subst (asm) parseValue.simps) (auto split: list.splits)
    then have l0: "length r0 < length s"
      by (rule skipWS_Cons_le)
    consider (obj) "c = 0x7B" | (arr) "c \<noteq> 0x7B" "c = 0x5B" | (str) "c \<noteq> 0x7B" "c \<noteq> 0x5B" "c = 0x22"
      | (lit) "c \<noteq> 0x7B" "c \<noteq> 0x5B" "c \<noteq> 0x22" "c = 0x74 \<or> c = 0x66 \<or> c = 0x6E"
      | (num) "c \<noteq> 0x7B" "c \<noteq> 0x5B" "c \<noteq> 0x22" "c \<noteq> 0x74" "c \<noteq> 0x66" "c \<noteq> 0x6E"
      by blast
    then show ?thesis
    proof cases
      case obj
      with a s0 obtain d r1 where s1: "skipWS r0 = d # r1"
        by (subst (asm) parseValue.simps) (auto split: list.splits)
      show ?thesis
      proof (cases "d = 0x7D")
        case True
        with a s0 s1 obj have "r = r1"
          by (subst (asm) parseValue.simps) simp
        with skipWS_Cons_le [OF s1] l0 show ?thesis by simp
      next
        case False
        with a s0 s1 obj obtain kvs where "parseMembers r0 = Some (kvs, r)"
          by (subst (asm) parseValue.simps) (auto dest: mapResult_Some)
        from IHm [OF this l0] show ?thesis by simp
      qed
    next
      case arr
      with a s0 obtain d r1 where s1: "skipWS r0 = d # r1"
        by (subst (asm) parseValue.simps) (auto split: list.splits)
      show ?thesis
      proof (cases "d = 0x5D")
        case True
        with a s0 s1 arr have "r = r1"
          by (subst (asm) parseValue.simps) simp
        with skipWS_Cons_le [OF s1] l0 show ?thesis by simp
      next
        case False
        with a s0 s1 arr obtain vs where "parseElements r0 = Some (vs, r)"
          by (subst (asm) parseValue.simps) (auto dest: mapResult_Some)
        from IHe [OF this l0] show ?thesis by simp
      qed
    next
      case str
      with a s0 obtain k where "parseChars r0 = Some (k, r)"
        by (subst (asm) parseValue.simps) (auto dest: mapResult_Some)
      from parseChars_consumes [OF this] l0 show ?thesis by simp
    next
      case lit
      with a s0 have "length r \<le> length r0"
        by (subst (asm) parseValue.simps) (auto dest: stripPrefix_consumes)
      with l0 show ?thesis by simp
    next
      case num
      with a s0 obtain x where "parseNumber (c # r0) = Some (x, r)"
        by (subst (asm) parseValue.simps) (auto dest: mapResult_Some)
      from parseNumber_consumes [OF this] s0 length_skipWS [of s] show ?thesis by simp
    qed
  qed
  have e: "length r < length s" if a: "parseElements s = Some (vs, r)" for vs r
  proof -
    from a obtain x r1 where pv: "parseValue s = Some (x, r1)"
      by (subst (asm) parseElements.simps) (auto split: option.splits)
    with a obtain c r2 where s2: "skipWS r1 = c # r2"
      by (subst (asm) parseElements.simps) (auto split: list.splits)
    have l2: "length r2 < length s"
      using v [OF pv] skipWS_Cons_le [OF s2] by simp
    show ?thesis
    proof (cases "c = 0x5D")
      case True
      with a pv s2 have "r = r2"
        by (subst (asm) parseElements.simps) simp
      with l2 show ?thesis by simp
    next
      case False
      with a pv s2 obtain ws where "parseElements r2 = Some (ws, r)"
        by (subst (asm) parseElements.simps) (auto split: if_splits dest: consResult_Some)
      from IHe [OF this l2] show ?thesis by simp
    qed
  qed
  have m: "length r < length s" if a: "parseMembers s = Some (kvs, r)" for kvs r
  proof -
    from a obtain q r0 where s0: "skipWS s = q # r0"
      by (subst (asm) parseMembers.simps) (auto split: list.splits)
    with a have q: "q = 0x22"
      by (subst (asm) parseMembers.simps) (auto split: if_splits)
    with a s0 obtain k r1 where pc: "parseChars r0 = Some (k, r1)"
      by (subst (asm) parseMembers.simps) (auto split: option.splits)
    with a s0 q obtain c r2 where s2: "skipWS r1 = c # r2"
      by (subst (asm) parseMembers.simps) (auto split: list.splits)
    have l2: "length r2 < length s"
      using skipWS_Cons_le [OF s0] parseChars_consumes [OF pc] skipWS_Cons_le [OF s2] by simp
    with a s0 q pc s2 have c: "c = 0x3A"
      by (subst (asm) parseMembers.simps) (auto split: if_splits)
    with a s0 q pc s2 l2 obtain x r3 where pv: "parseValue r2 = Some (x, r3)"
      by (subst (asm) parseMembers.simps) (auto split: option.splits)
    with a s0 q pc s2 l2 c obtain d r4 where s4: "skipWS r3 = d # r4"
      by (subst (asm) parseMembers.simps) (auto split: list.splits)
    have l4: "length r4 < length s"
      using IHv [OF pv l2 order_refl] skipWS_Cons_le [OF s4] by simp
    show ?thesis
    proof (cases "d = 0x7D")
      case True
      with a s0 q pc s2 l2 c pv s4 have "r = r4"
        by (subst (asm) parseMembers.simps) simp
      with l4 show ?thesis by simp
    next
      case False
      with a s0 q pc s2 l2 c pv s4 obtain ws where "parseMembers r4 = Some (ws, r)"
        by (subst (asm) parseMembers.simps) (auto split: if_splits dest: consResult_Some)
      from IHm [OF this l4] show ?thesis by simp
    qed
  qed
  from v e m show ?case by blast
qed

text \<open>So the tests on the length never fail, and the parsers are those of the grammar.\<close>

lemma parseElements_unguarded:
  "parseElements s =
     (case parseValue s of
        None \<Rightarrow> None
      | Some (v, r) \<Rightarrow>
          (case skipWS r of
             [] \<Rightarrow> None
           | c # r1 \<Rightarrow>
               if c = 0x5D then Some ([v], r1)
               else if c = 0x2C then consResult v (parseElements r1)
               else None))"
proof (cases "parseValue s")
  case None
  then show ?thesis
    by (subst parseElements.simps) simp
next
  case (Some p)
  obtain v r where p: "p = (v, r)"
    by (cases p)
  with Some have lr: "length r < length s"
    using parse_consumes [of s] by simp
  show ?thesis
  proof (cases "skipWS r")
    case Nil
    with Some p show ?thesis
      by (subst parseElements.simps) simp
  next
    case (Cons c r1)
    with lr have "length r1 < length s"
      using skipWS_Cons_le [of r c r1] by simp
    with Some p Cons show ?thesis
      by (subst parseElements.simps) simp
  qed
qed

lemma parseMembers_unguarded:
  "parseMembers s =
     (case skipWS s of
        [] \<Rightarrow> None
      | q # r \<Rightarrow>
          if q = 0x22 then
            (case parseChars r of
               None \<Rightarrow> None
             | Some (k, r1) \<Rightarrow>
                 (case skipWS r1 of
                    [] \<Rightarrow> None
                  | c # r2 \<Rightarrow>
                      if c = 0x3A then
                        (case parseValue r2 of
                           None \<Rightarrow> None
                         | Some (v, r3) \<Rightarrow>
                             (case skipWS r3 of
                                [] \<Rightarrow> None
                              | d # r4 \<Rightarrow>
                                  if d = 0x7D then Some ([(k, v)], r4)
                                  else if d = 0x2C then consResult (k, v) (parseMembers r4)
                                  else None))
                      else None))
          else None)"
proof (cases "skipWS s")
  case Nil
  then show ?thesis
    by (subst parseMembers.simps) simp
next
  case s0: (Cons q r)
  show ?thesis
  proof (cases "parseChars r")
    case None
    with s0 show ?thesis
      by (subst parseMembers.simps) simp
  next
    case (Some p)
    obtain k r1 where p: "p = (k, r1)"
      by (cases p)
    show ?thesis
    proof (cases "skipWS r1")
      case Nil
      with s0 Some p show ?thesis
        by (subst parseMembers.simps) simp
    next
      case s2: (Cons c r2)
      have l2: "length r2 < length s"
        using skipWS_Cons_le [OF s0] parseChars_consumes [of r k r1] Some p
          skipWS_Cons_le [OF s2] by simp
      show ?thesis
      proof (cases "parseValue r2")
        case None
        with s0 Some p s2 show ?thesis
          by (subst parseMembers.simps) simp
      next
        case pv: (Some p')
        obtain v r3 where p': "p' = (v, r3)"
          by (cases p')
        with pv have l3: "length r3 < length r2"
          using parse_consumes [of r2] by simp
        show ?thesis
        proof (cases "skipWS r3")
          case Nil
          with s0 Some p s2 pv p' show ?thesis
            by (subst parseMembers.simps) simp
        next
          case s4: (Cons d r4)
          with l2 l3 have "length r4 < length s"
            using skipWS_Cons_le [OF s4] by simp
          with s0 Some p s2 l2 pv p' s4 show ?thesis
            by (subst parseMembers.simps) simp
        qed
      qed
    qed
  qed
qed

lemma JSON_parse_empty: "JSON_parse [] = None"
  by (simp add: JSON_parse_def parseValue.simps skipWS_def)

subsection \<open>Evaluation\<close>

lemma digits_small: "n < 10 \<Longrightarrow> digits n = [0x30 + of_nat n]"
  by (subst digits.simps) simp

lemma digits_big: "\<not> n < 10 \<Longrightarrow> digits n = digits (n div 10) @ [0x30 + of_nat (n mod 10)]"
  by (subst digits.simps) simp

lemmas stringify_defs = JSON_stringify_def stringifyTask_def QuoteJSONString_def quoteUnit_def
  isLeadingSurrogate_def isTrailingSurrogate_def NumberToString_def digits_small digits_big

lemmas parse_defs = JSON_parse_def parseValue.simps parseElements.simps parseMembers.simps
  skipWS_def isJSONWhiteSpace_def parseChars.simps(2) parseNumber_def parseInt_def parseFrac_def
  parseExp_def isDigit_def digitsValue_def scale_def escapeValue_def hex4_def hexValue_def
  properties_def

text \<open>
  The text that \<^verbatim>\<open>save()\<close> writes after the scenario, and some texts as
  \<^verbatim>\<open>JSON.parse\<close> reads them.
\<close>

lemma dog_text:
  \<open>JSON_stringify (tasks dogWorld) =
     utf16 ''[{"id":"_k1x9q0c","text":"Walk dog","completed":false,"createdAt":1700000000500},{"id":"_4fzyo82","text":"Buy milk","completed":true,"createdAt":1700000000000}]''\<close>
  by (simp add: dog_tasks stringify_defs utf16_def)

lemma parse_example_object:
  \<open>JSON_parse (utf16 ''{"a": -1.5e1, "b": [true, null, "x"], "a": 7}'') =
     Some (JObj [(utf16 ''a'', JNum 7),
                 (utf16 ''b'', JArr [JBool True, JNull, JStr (utf16 ''x'')])])\<close>
  by (simp add: parse_defs utf16_def)

lemma parse_example_number: \<open>JSON_parse (utf16 ''-12.5e-1'') = Some (JNum (- 5 / 4))\<close>
  by (simp add: parse_defs utf16_def)

lemma parse_example_escapes:
  \<open>JSON_parse (utf16 ''"a'' @ [0x5C, 0x6E, 0x5C, 0x75] @ utf16 ''00e9"'') =
     Some (JStr [0x61, 0x0A, 0xE9])\<close>
  by (simp add: parse_defs utf16_def)

lemma parse_example_errors:
  \<open>JSON_parse (utf16 ''[1,]'') = None\<close>
  \<open>JSON_parse (utf16 ''[01]'') = None\<close>
  \<open>JSON_parse (utf16 ''{"a":1} x'') = None\<close>
  \<open>JSON_parse (utf16 ''tru'') = None\<close>
  by (simp_all add: parse_defs utf16_def)

subsection \<open>The storage after a write\<close>

lemma getItem_setItem: "setItem k v st = Inr st' \<Longrightarrow> getItem k st' = Inr (Some v)"
  by (auto simp: setItem_def getItem_def map_of_put split: if_splits)

lemma load_written:
  "setItem k (JSON_stringify ts) st = Inr st' \<Longrightarrow> load k st' = map taskObject ts"
  by (simp add: load_def getItem_setItem JSON_parse_stringify JSON_stringify_nonempty)

text \<open>What \<^verbatim>\<open>save()\<close> leaves in the storage, for a state with the list \<open>ts\<close>.\<close>

lemma save_storage:
  "(setItem (storageKey w) (JSON_stringify ts) (localStorage w) = Inr st \<longrightarrow>
      localStorage (save (w\<lparr>tasks := ts\<rparr>)) = st \<and>
      getItem (storageKey w) st = Inr (Some (JSON_stringify ts)) \<and>
      load (storageKey w) st = map taskObject ts) \<and>
   (setItem (storageKey w) (JSON_stringify ts) (localStorage w) = Inl e \<longrightarrow>
      localStorage (save (w\<lparr>tasks := ts\<rparr>)) = localStorage w)"
  by (simp add: save_def getItem_setItem load_written)

lemma setItem_fits:
  "\<not> denied st \<Longrightarrow> used (put k v (items st)) \<le> quota st \<Longrightarrow>
   setItem k v st = Inr (st\<lparr>items := put k v (items st)\<rparr>)"
  by (simp add: setItem_def)

lemma setItem_fullStorage:
  "v \<noteq> [] \<Longrightarrow> setItem k v fullStorage = Inl QuotaExceededError"
  by (cases v) (simp_all add: setItem_def fullStorage_def emptyStorage_def used_def)

lemma save_fullStorage: "localStorage w = fullStorage \<Longrightarrow> save w = w"
  by (simp add: save_def setItem_fullStorage JSON_stringify_nonempty)

lemma load_fullStorage: "load k fullStorage = []"
  by (simp add: load_def getItem_def fullStorage_def emptyStorage_def)

lemma unsaved_world:
  "unsavedWorld =
     world0\<lparr>tasks := [\<lparr> task_id = utf16 ''_4fzyo82'', task_text = utf16 ''Buy milk'',
       completed = False, createdAt = 1700000000000 \<rparr>], localStorage := fullStorage\<rparr>"
  by (simp add: unsavedWorld_def addMilk_def addTask_def Let_def save_fullStorage world0_def
      string_defs)

lemma unsaved_pair:
  "unsavedPair =
     world0\<lparr>tasks := [\<lparr> task_id = utf16 ''_k1x9q0c'', task_text = utf16 ''Walk dog'',
       completed = False, createdAt = 1700000000500 \<rparr>,
       \<lparr> task_id = utf16 ''_4fzyo82'', task_text = utf16 ''Buy milk'',
       completed = False, createdAt = 1700000000000 \<rparr>], localStorage := fullStorage\<rparr>"
  by (simp add: unsavedPair_def addMilk_def addDog_def addTask_def Let_def save_fullStorage
      world0_def string_defs)

lemma milk_storage:
  "localStorage milkWorld =
     emptyStorage\<lparr>items := [(utf16 ''todo.tasks.v1'', JSON_stringify (tasks milkWorld))]\<rparr>"
  by (simp add: milkWorld_def addMilk_def)
    (simp add: addTask_def Let_def save_def setItem_def world0_def emptyStorage_def used_def
      string_defs stringify_defs)

lemma dog_storage:
  "localStorage dogWorld =
     emptyStorage\<lparr>items := [(utf16 ''todo.tasks.v1'', JSON_stringify (tasks dogWorld))]\<rparr>"
  by (simp add: dogWorld_def addMilk_def addDog_def toggleMilk_def)
    (simp add: addTask_def updateTask_def Let_def save_def setItem_def world0_def
      emptyStorage_def used_def Object_assign_def noUpdates_def string_defs stringify_defs)

lemma world_keys:
  "storageKey milkWorld = utf16 ''todo.tasks.v1''" "storageKey dogWorld = utf16 ''todo.tasks.v1''"
  "storageKey unsavedWorld = utf16 ''todo.tasks.v1''"
  "storageKey unsavedPair = utf16 ''todo.tasks.v1''"
  by (simp_all add: milkWorld_def dogWorld_def unsavedWorld_def unsavedPair_def addMilk_def
      addDog_def toggleMilk_def addTask_def updateTask_def Let_def world0_def
      split: option.splits)

section \<open>addTask\<close>

text \<open>
  C1. For every string \<open>s\<close>, \<^verbatim>\<open>addTask(s)\<close> returns a task exactly when \<open>trim s\<close> is
  not empty. The task then has the text \<open>trim s\<close> and is not completed, it is the new
  head of the list, and the list is saved. When \<open>trim s\<close> is empty the result is
  \<^verbatim>\<open>null\<close> and neither the list nor the storage changes.
\<close>

theorem addTask_spec:
  "(fst (addTask rnd now s w) \<noteq> None \<longleftrightarrow> trim s \<noteq> []) \<and>
   (trim s \<noteq> [] \<longrightarrow>
      (\<exists>t. fst (addTask rnd now s w) = Some t \<and> task_text t = trim s \<and> completed t = False \<and>
           task_id t = ID rnd \<and> createdAt t = now \<and>
           tasks (snd (addTask rnd now s w)) = t # tasks w \<and>
           snd (addTask rnd now s w) = save (w\<lparr>tasks := t # tasks w\<rparr>))) \<and>
   (trim s = [] \<longrightarrow> addTask rnd now s w = (None, w))"
  by (simp add: addTask_def Let_def)

text \<open>C1 at \<^verbatim>\<open>"  Buy milk "\<close> and at a string of spaces.\<close>

theorem addTask_spec_witness:
  "fst (addTask (utf16 ''0.4fzyo82mvyr'') 1700000000000 (utf16 ''  Buy milk '') world0) =
     Some \<lparr> task_id = utf16 ''_4fzyo82'', task_text = utf16 ''Buy milk'', completed = False,
            createdAt = 1700000000000 \<rparr> \<and>
   trim (utf16 ''  Buy milk '') = utf16 ''Buy milk'' \<and>
   trim (utf16 ''   '') = [] \<and>
   addTask (utf16 ''0.4fzyo82mvyr'') 1700000000000 (utf16 ''   '') world0 = (None, world0)"
  using addTask_spec [of "utf16 ''0.4fzyo82mvyr''" 1700000000000 "utf16 ''  Buy milk ''" world0]
    addTask_spec [of "utf16 ''0.4fzyo82mvyr''" 1700000000000 "utf16 ''   ''" world0]
  by (simp add: addTask_def Let_def string_defs)

section \<open>removeTask\<close>

text \<open>
  C2 as stated fails, in two ways. After two draws of 0.5 both tasks have the id
  \<^verbatim>\<open>_i\<close>, and \<^verbatim>\<open>removeTask("_i")\<close> takes the list from two tasks to none. And
  \<^verbatim>\<open>save()\<close> swallows the error of a storage that refuses the write: over a storage
  whose quota is used up \<^verbatim>\<open>removeTask\<close> removes "Buy milk" and returns \<^verbatim>\<open>true\<close>, the
  storage is as it was, and a fresh \<^verbatim>\<open>load()\<close> does not give the list that is left.
\<close>

theorem removeTask_counterexample:
  "map task_id (tasks twinWorld) = [utf16 ''_i'', utf16 ''_i''] \<and>
   length (tasks twinWorld) = 2 \<and>
   length (tasks (snd (removeTask (utf16 ''_i'') twinWorld))) = 0 \<and>
   length (tasks (snd (removeTask (utf16 ''_i'') twinWorld))) \<noteq> length (tasks twinWorld) - 1 \<and>
   map task_id (tasks unsavedPair) = [utf16 ''_k1x9q0c'', utf16 ''_4fzyo82''] \<and>
   fst (removeTask (utf16 ''_4fzyo82'') unsavedPair) = True \<and>
   map task_id (tasks (snd (removeTask (utf16 ''_4fzyo82'') unsavedPair))) = [utf16 ''_k1x9q0c''] \<and>
   localStorage (snd (removeTask (utf16 ''_4fzyo82'') unsavedPair)) = fullStorage \<and>
   getItem (utf16 ''todo.tasks.v1'')
     (localStorage (snd (removeTask (utf16 ''_4fzyo82'') unsavedPair))) = Inr None \<and>
   load (utf16 ''todo.tasks.v1'')
     (localStorage (snd (removeTask (utf16 ''_4fzyo82'') unsavedPair))) = []"
proof -
  have twin: "map task_id (tasks twinWorld) = [utf16 ''_i'', utf16 ''_i''] \<and>
      length (tasks twinWorld) = 2 \<and>
      length (tasks (snd (removeTask (utf16 ''_i'') twinWorld))) = 0 \<and>
      length (tasks (snd (removeTask (utf16 ''_i'') twinWorld))) \<noteq> length (tasks twinWorld) - 1"
    by (simp add: twin_tasks removeTask_def Let_def)
  have r: "removeTask (utf16 ''_4fzyo82'') unsavedPair =
      (True, world0\<lparr>tasks := [\<lparr> task_id = utf16 ''_k1x9q0c'', task_text = utf16 ''Walk dog'',
        completed = False, createdAt = 1700000000500 \<rparr>], localStorage := fullStorage\<rparr>)"
    by (simp add: unsaved_pair removeTask_def Let_def save_fullStorage utf16_def)
  have pair: "map task_id (tasks unsavedPair) = [utf16 ''_k1x9q0c'', utf16 ''_4fzyo82'']"
    by (simp add: unsaved_pair)
  have g: "getItem (utf16 ''todo.tasks.v1'') fullStorage = Inr None"
    by (simp add: getItem_def fullStorage_def emptyStorage_def)
  from twin pair g show ?thesis
    by (simp add: r load_fullStorage)
qed

text \<open>
  C2, amended. When a task has the id, \<^verbatim>\<open>removeTask(id)\<close> removes every task with the
  id: the count goes down by the number of tasks that have it, which is one when the ids
  of the list are distinct; no task with the id is left, \<^verbatim>\<open>save()\<close> is called and the
  result is \<^verbatim>\<open>true\<close>. When the storage accepts the write, it then holds the text of
  the list that is left under the key of the manager, and a fresh \<^verbatim>\<open>load()\<close> yields the
  objects of that list; when it refuses the write, the storage stays as it was. When no
  task has the id, the list and the storage stay as they are and the result is
  \<^verbatim>\<open>false\<close>.
\<close>

theorem removeTask_spec:
  "(i \<in> task_id ` set (tasks w) \<longrightarrow>
      length (tasks (snd (removeTask i w))) + count_list (map task_id (tasks w)) i =
        length (tasks w) \<and>
      (distinct (map task_id (tasks w)) \<longrightarrow>
         length (tasks (snd (removeTask i w))) + 1 = length (tasks w)) \<and>
      i \<notin> task_id ` set (tasks (snd (removeTask i w))) \<and>
      removeTask i w = (True, save (w\<lparr>tasks := filter (\<lambda>t. task_id t \<noteq> i) (tasks w)\<rparr>)) \<and>
      (setItem (storageKey w) (JSON_stringify (filter (\<lambda>t. task_id t \<noteq> i) (tasks w)))
           (localStorage w) = Inr st \<longrightarrow>
         localStorage (snd (removeTask i w)) = st \<and>
         getItem (storageKey w) st =
           Inr (Some (JSON_stringify (filter (\<lambda>t. task_id t \<noteq> i) (tasks w)))) \<and>
         load (storageKey w) st = map taskObject (filter (\<lambda>t. task_id t \<noteq> i) (tasks w))) \<and>
      (setItem (storageKey w) (JSON_stringify (filter (\<lambda>t. task_id t \<noteq> i) (tasks w)))
           (localStorage w) = Inl e \<longrightarrow>
         localStorage (snd (removeTask i w)) = localStorage w)) \<and>
   (i \<notin> task_id ` set (tasks w) \<longrightarrow> removeTask i w = (False, w))"
proof (cases "i \<in> task_id ` set (tasks w)")
  case True
  let ?ts = "filter (\<lambda>t. task_id t \<noteq> i) (tasks w)"
  note len = length_filter_neq [of i "tasks w"]
  from True have "0 < count_list (map task_id (tasks w)) i"
    by (rule count_pos)
  with len have ne: "length ?ts \<noteq> length (tasks w)"
    by linarith
  then have eq: "removeTask i w = (True, save (w\<lparr>tasks := ?ts\<rparr>))"
    by (simp add: removeTask_def Let_def)
  have ts: "tasks (snd (removeTask i w)) = ?ts"
    by (simp add: eq)
  have count: "length (tasks (snd (removeTask i w))) + count_list (map task_id (tasks w)) i =
      length (tasks w)"
    by (simp only: ts len)
  have one: "distinct (map task_id (tasks w)) \<longrightarrow>
      length (tasks (snd (removeTask i w))) + 1 = length (tasks w)"
    using count_distinct [OF _ True] count by auto
  have gone: "i \<notin> task_id ` set (tasks (snd (removeTask i w)))"
    unfolding ts by auto
  have written: "setItem (storageKey w) (JSON_stringify ?ts) (localStorage w) = Inr st \<longrightarrow>
      localStorage (snd (removeTask i w)) = st \<and>
      getItem (storageKey w) st = Inr (Some (JSON_stringify ?ts)) \<and>
      load (storageKey w) st = map taskObject ?ts"
    using save_storage [of w ?ts st e] by (simp add: eq)
  have refused: "setItem (storageKey w) (JSON_stringify ?ts) (localStorage w) = Inl e \<longrightarrow>
      localStorage (snd (removeTask i w)) = localStorage w"
    using save_storage [of w ?ts st e] by (simp add: eq)
  from True count one gone eq written refused show ?thesis
    by blast
next
  case False
  then show ?thesis
    by (simp add: removeTask_def Let_def filter_id_absent)
qed

text \<open>
  The amended C2 on the list of one task, at its id and at an id that is not held; on
  the list of two tasks with one id; on the list of two tasks over a storage that takes
  the write; and on the list of two tasks over the storage that refuses it.
\<close>

theorem removeTask_spec_witness:
  \<open>utf16 ''_4fzyo82'' \<in> task_id ` set (tasks milkWorld) \<and>
   distinct (map task_id (tasks milkWorld)) \<and>
   removeTask (utf16 ''_4fzyo82'') milkWorld = (True, save (milkWorld\<lparr>tasks := []\<rparr>)) \<and>
   length (tasks (snd (removeTask (utf16 ''_4fzyo82'') milkWorld))) + 1 = length (tasks milkWorld) \<and>
   utf16 ''_i'' \<notin> task_id ` set (tasks milkWorld) \<and>
   removeTask (utf16 ''_i'') milkWorld = (False, milkWorld) \<and>
   utf16 ''_i'' \<in> task_id ` set (tasks twinWorld) \<and>
   count_list (map task_id (tasks twinWorld)) (utf16 ''_i'') = 2 \<and>
   length (tasks (snd (removeTask (utf16 ''_i'') twinWorld))) + 2 = length (tasks twinWorld) \<and>
   utf16 ''_4fzyo82'' \<in> task_id ` set (tasks dogWorld) \<and>
   setItem (storageKey dogWorld)
       (JSON_stringify (filter (\<lambda>t. task_id t \<noteq> utf16 ''_4fzyo82'') (tasks dogWorld)))
       (localStorage dogWorld) =
     Inr (emptyStorage\<lparr>items := [(utf16 ''todo.tasks.v1'',
       utf16 ''[{"id":"_k1x9q0c","text":"Walk dog","completed":false,"createdAt":1700000000500}]'')]\<rparr>) \<and>
   localStorage (snd (removeTask (utf16 ''_4fzyo82'') dogWorld)) =
     emptyStorage\<lparr>items := [(utf16 ''todo.tasks.v1'',
       utf16 ''[{"id":"_k1x9q0c","text":"Walk dog","completed":false,"createdAt":1700000000500}]'')]\<rparr> \<and>
   load (utf16 ''todo.tasks.v1'') (localStorage (snd (removeTask (utf16 ''_4fzyo82'') dogWorld))) =
     [JObj [(utf16 ''id'', JStr (utf16 ''_k1x9q0c'')), (utf16 ''text'', JStr (utf16 ''Walk dog'')),
            (utf16 ''completed'', JBool False), (utf16 ''createdAt'', JNum 1700000000500)]] \<and>
   utf16 ''_4fzyo82'' \<in> task_id ` set (tasks unsavedPair) \<and>
   setItem (storageKey unsavedPair)
       (JSON_stringify (filter (\<lambda>t. task_id t \<noteq> utf16 ''_4fzyo82'') (tasks unsavedPair)))
       (localStorage unsavedPair) = Inl QuotaExceededError \<and>
   localStorage (snd (removeTask (utf16 ''_4fzyo82'') unsavedPair)) = localStorage unsavedPair\<close>
proof -
  let ?dog = "\<lparr> task_id = utf16 ''_k1x9q0c'', task_text = utf16 ''Walk dog'', completed = False,
      createdAt = 1700000000500 \<rparr>"
  have small: "utf16 ''_4fzyo82'' \<in> task_id ` set (tasks milkWorld) \<and>
      distinct (map task_id (tasks milkWorld)) \<and>
      removeTask (utf16 ''_4fzyo82'') milkWorld = (True, save (milkWorld\<lparr>tasks := []\<rparr>)) \<and>
      length (tasks (snd (removeTask (utf16 ''_4fzyo82'') milkWorld))) + 1 =
        length (tasks milkWorld) \<and>
      utf16 ''_i'' \<notin> task_id ` set (tasks milkWorld) \<and>
      removeTask (utf16 ''_i'') milkWorld = (False, milkWorld) \<and>
      utf16 ''_i'' \<in> task_id ` set (tasks twinWorld) \<and>
      count_list (map task_id (tasks twinWorld)) (utf16 ''_i'') = 2 \<and>
      length (tasks (snd (removeTask (utf16 ''_i'') twinWorld))) + 2 = length (tasks twinWorld)"
    using removeTask_spec [of "utf16 ''_4fzyo82''" milkWorld]
      removeTask_spec [of "utf16 ''_i''" milkWorld]
      removeTask_spec [of "utf16 ''_i''" twinWorld]
    by (simp add: milk_tasks twin_tasks utf16_def)
  have left: "filter (\<lambda>t. task_id t \<noteq> utf16 ''_4fzyo82'') (tasks dogWorld) = [?dog]"
    by (simp add: dog_tasks utf16_def)
  have left': "filter (\<lambda>t. task_id t \<noteq> utf16 ''_4fzyo82'') (tasks unsavedPair) = [?dog]"
    by (simp add: unsaved_pair utf16_def)
  have written_text: \<open>JSON_stringify [?dog] =
      utf16 ''[{"id":"_k1x9q0c","text":"Walk dog","completed":false,"createdAt":1700000000500}]''\<close>
    by (simp add: stringify_defs utf16_def)
  have ok: \<open>setItem (storageKey dogWorld) (JSON_stringify [?dog]) (localStorage dogWorld) =
      Inr (emptyStorage\<lparr>items := [(utf16 ''todo.tasks.v1'',
        utf16 ''[{"id":"_k1x9q0c","text":"Walk dog","completed":false,"createdAt":1700000000500}]'')]\<rparr>)\<close>
    unfolding written_text
    by (simp add: world_keys dog_storage setItem_def emptyStorage_def used_def utf16_def)
  have no: "setItem (storageKey unsavedPair) (JSON_stringify [?dog]) (localStorage unsavedPair) =
      Inl QuotaExceededError"
    by (simp add: unsaved_pair setItem_fullStorage JSON_stringify_nonempty)
  have mem: "utf16 ''_4fzyo82'' \<in> task_id ` set (tasks dogWorld)"
    "utf16 ''_4fzyo82'' \<in> task_id ` set (tasks unsavedPair)"
    by (simp_all add: dog_tasks unsaved_pair)
  from removeTask_spec [of "utf16 ''_4fzyo82''" dogWorld
      \<open>emptyStorage\<lparr>items := [(utf16 ''todo.tasks.v1'',
        utf16 ''[{"id":"_k1x9q0c","text":"Walk dog","completed":false,"createdAt":1700000000500}]'')]\<rparr>\<close>,
      unfolded left]
    mem(1) ok
  have acc: \<open>localStorage (snd (removeTask (utf16 ''_4fzyo82'') dogWorld)) =
      emptyStorage\<lparr>items := [(utf16 ''todo.tasks.v1'',
        utf16 ''[{"id":"_k1x9q0c","text":"Walk dog","completed":false,"createdAt":1700000000500}]'')]\<rparr> \<and>
      load (storageKey dogWorld) (emptyStorage\<lparr>items := [(utf16 ''todo.tasks.v1'',
        utf16 ''[{"id":"_k1x9q0c","text":"Walk dog","completed":false,"createdAt":1700000000500}]'')]\<rparr>) =
        map taskObject [?dog]\<close>
    by blast
  from removeTask_spec [of "utf16 ''_4fzyo82''" unsavedPair _ QuotaExceededError, unfolded left']
    mem(2) no
  have ref: "localStorage (snd (removeTask (utf16 ''_4fzyo82'') unsavedPair)) =
      localStorage unsavedPair"
    by blast
  have large: \<open>utf16 ''_4fzyo82'' \<in> task_id ` set (tasks dogWorld) \<and>
      setItem (storageKey dogWorld)
          (JSON_stringify (filter (\<lambda>t. task_id t \<noteq> utf16 ''_4fzyo82'') (tasks dogWorld)))
          (localStorage dogWorld) =
        Inr (emptyStorage\<lparr>items := [(utf16 ''todo.tasks.v1'',
          utf16 ''[{"id":"_k1x9q0c","text":"Walk dog","completed":false,"createdAt":1700000000500}]'')]\<rparr>) \<and>
      localStorage (snd (removeTask (utf16 ''_4fzyo82'') dogWorld)) =
        emptyStorage\<lparr>items := [(utf16 ''todo.tasks.v1'',
          utf16 ''[{"id":"_k1x9q0c","text":"Walk dog","completed":false,"createdAt":1700000000500}]'')]\<rparr> \<and>
      load (utf16 ''todo.tasks.v1'') (localStorage (snd (removeTask (utf16 ''_4fzyo82'') dogWorld))) =
        [JObj [(utf16 ''id'', JStr (utf16 ''_k1x9q0c'')), (utf16 ''text'', JStr (utf16 ''Walk dog'')),
               (utf16 ''completed'', JBool False), (utf16 ''createdAt'', JNum 1700000000500)]] \<and>
      utf16 ''_4fzyo82'' \<in> task_id ` set (tasks unsavedPair) \<and>
      setItem (storageKey unsavedPair)
          (JSON_stringify (filter (\<lambda>t. task_id t \<noteq> utf16 ''_4fzyo82'') (tasks unsavedPair)))
          (localStorage unsavedPair) = Inl QuotaExceededError \<and>
      localStorage (snd (removeTask (utf16 ''_4fzyo82'') unsavedPair)) = localStorage unsavedPair\<close>
    using mem ok no ref unfolding left left'
    by (simp add: acc [unfolded world_keys] taskObject_def)
  from small large show ?thesis
    by blast
qed

section \<open>Ids\<close>

text \<open>
  C3 as stated fails, in both halves. \<^verbatim>\<open>ID()\<close> keeps seven radix-36 digits of a random
  number and checks nothing: two draws of 0.5 give two tasks with the id \<^verbatim>\<open>_i\<close>. And
  \<^verbatim>\<open>updateTask\<close> copies an \<^verbatim>\<open>id\<close> field like any other: it gives "Buy milk" the id
  of "Walk dog".
\<close>

theorem ids_counterexample:
  "tasks world0 = [] \<and>
   \<not> distinct (map task_id (tasks twinWorld)) \<and>
   map task_id (tasks dogWorld) = [utf16 ''_k1x9q0c'', utf16 ''_4fzyo82''] \<and>
   map task_id (tasks (perform relabelMilk dogWorld)) = [utf16 ''_k1x9q0c'', utf16 ''_k1x9q0c'']"
  by (simp add: world0_def twin_tasks dog_tasks relabelMilk_def tasks_updateTask
      Object_assign_def noUpdates_def utf16_def)

text \<open>
  C3, amended. In every state reached from the empty list by operations that are id-safe
  (each \<^verbatim>\<open>addTask\<close> draws an id that no held task has, no \<^verbatim>\<open>updateTask\<close> carries an
  \<^verbatim>\<open>id\<close> field) the ids of the held tasks are distinct. An \<^verbatim>\<open>updateTask\<close> without an
  \<^verbatim>\<open>id\<close> field leaves the id at every position as it was; \<^verbatim>\<open>addTask\<close> leaves the
  held tasks as they were, behind the new one; \<^verbatim>\<open>removeTask\<close> and
  \<^verbatim>\<open>clearCompleted\<close> leave the tasks they keep as they were.
\<close>

theorem ids_unique_and_stable:
  "(tasks w = [] \<and> idSafeRun xs w \<longrightarrow> distinct (map task_id (tasks (run xs w)))) \<and>
   (upd_id u = None \<longrightarrow>
      map task_id (tasks (snd (updateTask i u v))) = map task_id (tasks v)) \<and>
   (tasks (snd (addTask rnd now s v)) = tasks v \<or>
    tl (tasks (snd (addTask rnd now s v))) = tasks v) \<and>
   tasks (snd (removeTask i v)) = filter (\<lambda>t. task_id t \<noteq> i) (tasks v) \<and>
   tasks (clearCompleted v) = filter (\<lambda>t. \<not> completed t) (tasks v)"
  by (simp add: distinct_run tasks_updateTask ids_assignFirst tasks_addTask tasks_removeTask
      tasks_clearCompleted)

text \<open>The amended C3 on the scenario, and on renaming "Buy milk" after it.\<close>

theorem ids_unique_and_stable_witness:
  "tasks world0 = [] \<and> idSafeRun [addMilk, addDog, toggleMilk] world0 \<and>
   distinct (map task_id (tasks (run [addMilk, addDog, toggleMilk] world0))) \<and>
   upd_id (noUpdates\<lparr>upd_text := Some (utf16 ''Buy oat milk'')\<rparr>) = None \<and>
   map task_id (tasks (snd (updateTask (utf16 ''_4fzyo82'')
      (noUpdates\<lparr>upd_text := Some (utf16 ''Buy oat milk'')\<rparr>) dogWorld))) =
     map task_id (tasks dogWorld)"
  using ids_unique_and_stable [of world0 "[addMilk, addDog, toggleMilk]"
      "noUpdates\<lparr>upd_text := Some (utf16 ''Buy oat milk'')\<rparr>" "utf16 ''_4fzyo82''" dogWorld]
  by (simp add: idSafe_def addMilk_def addDog_def toggleMilk_def tasks_addTask noUpdates_def
      world0_def string_defs)

section \<open>Texts\<close>

text \<open>
  C4 as stated fails: \<^verbatim>\<open>updateTask\<close> stores the text it is given. After
  \<^verbatim>\<open>updateTask(id, { text: "" })\<close> the list holds a task with an empty text, and
  after \<^verbatim>\<open>updateTask(id, { text: " Buy milk " })\<close> one with a text that is not
  trimmed.
\<close>

theorem texts_counterexample:
  "tasks world0 = [] \<and>
   map task_text (tasks (run [addMilk] world0)) = [utf16 ''Buy milk''] \<and>
   map task_text (tasks (run [addMilk, blankMilk] world0)) = [[]] \<and>
   map task_text (tasks (run [addMilk, padMilk] world0)) = [utf16 '' Buy milk ''] \<and>
   trim (utf16 '' Buy milk '') \<noteq> utf16 '' Buy milk ''"
  by (simp add: world0_def addMilk_def blankMilk_def padMilk_def tasks_addTask tasks_updateTask
      Object_assign_def noUpdates_def string_defs)

text \<open>
  C4, amended. In every state reached from the empty list by operations that are
  text-safe (every \<^verbatim>\<open>updateTask\<close> that carries a text carries a non-empty trimmed one)
  the text of every task is a non-empty trimmed string; and \<^verbatim>\<open>addTask\<close> rejects a
  text that is empty after trimming.
\<close>

theorem texts_valid:
  "(tasks w = [] \<and> list_all textSafe xs \<longrightarrow>
      list_all (\<lambda>t. validText (task_text t)) (tasks (run xs w))) \<and>
   (trim s = [] \<longrightarrow> addTask rnd now s v = (None, v))"
  by (simp add: texts_run addTask_def Let_def)

text \<open>The amended C4 on the scenario followed by an edit, and on a text of spaces.\<close>

theorem texts_valid_witness:
  "tasks world0 = [] \<and> list_all textSafe [addMilk, addDog, toggleMilk, renameMilk] \<and>
   list_all (\<lambda>t. validText (task_text t))
     (tasks (run [addMilk, addDog, toggleMilk, renameMilk] world0)) \<and>
   trim (utf16 ''   '') = [] \<and>
   addTask (utf16 ''0.i'') 1700000000000 (utf16 ''   '') dogWorld = (None, dogWorld)"
  using texts_valid [of world0 "[addMilk, addDog, toggleMilk, renameMilk]" "utf16 ''   ''"
      "utf16 ''0.i''" 1700000000000 dogWorld]
  by (simp add: textSafe_def validText_def addMilk_def addDog_def toggleMilk_def renameMilk_def
      noUpdates_def world0_def string_defs del: run.simps)

section \<open>updateTask\<close>

text \<open>
  C5 as stated fails where it says that the update is persisted: \<^verbatim>\<open>save()\<close> swallows
  the error of a storage that refuses the write. Over a storage whose quota is used up
  \<^verbatim>\<open>updateTask\<close> renames "Buy milk" and returns \<^verbatim>\<open>true\<close>, the storage is as it was,
  and a fresh \<^verbatim>\<open>load()\<close> gives the empty list.
\<close>

theorem updateTask_counterexample:
  "map task_id (tasks unsavedWorld) = [utf16 ''_4fzyo82''] \<and>
   fst (updateTask (utf16 ''_4fzyo82'') (noUpdates\<lparr>upd_text := Some (utf16 ''Buy oat milk'')\<rparr>)
          unsavedWorld) = True \<and>
   map task_text (tasks (snd (updateTask (utf16 ''_4fzyo82'')
          (noUpdates\<lparr>upd_text := Some (utf16 ''Buy oat milk'')\<rparr>) unsavedWorld))) =
     [utf16 ''Buy oat milk''] \<and>
   localStorage (snd (updateTask (utf16 ''_4fzyo82'')
          (noUpdates\<lparr>upd_text := Some (utf16 ''Buy oat milk'')\<rparr>) unsavedWorld)) = fullStorage \<and>
   getItem (utf16 ''todo.tasks.v1'') (localStorage (snd (updateTask (utf16 ''_4fzyo82'')
          (noUpdates\<lparr>upd_text := Some (utf16 ''Buy oat milk'')\<rparr>) unsavedWorld))) = Inr None \<and>
   load (utf16 ''todo.tasks.v1'') (localStorage (snd (updateTask (utf16 ''_4fzyo82'')
          (noUpdates\<lparr>upd_text := Some (utf16 ''Buy oat milk'')\<rparr>) unsavedWorld))) = []"
proof -
  have r: "updateTask (utf16 ''_4fzyo82'') (noUpdates\<lparr>upd_text := Some (utf16 ''Buy oat milk'')\<rparr>)
        unsavedWorld =
      (True, world0\<lparr>tasks := [\<lparr> task_id = utf16 ''_4fzyo82'', task_text = utf16 ''Buy oat milk'',
        completed = False, createdAt = 1700000000000 \<rparr>], localStorage := fullStorage\<rparr>)"
    by (simp add: unsaved_world updateTask_def save_fullStorage Object_assign_def noUpdates_def)
  have g: "getItem (utf16 ''todo.tasks.v1'') fullStorage = Inr None"
    by (simp add: getItem_def fullStorage_def emptyStorage_def)
  have ids: "map task_id (tasks unsavedWorld) = [utf16 ''_4fzyo82'']"
    by (simp add: unsaved_world)
  from ids g show ?thesis
    by (simp add: r load_fullStorage)
qed

text \<open>
  C5, amended. When no task has the id, \<^verbatim>\<open>updateTask(id, updates)\<close> returns \<^verbatim>\<open>false\<close>
  and changes neither the list nor the storage. When a task has the id, the fields of
  \<open>updates\<close> are written into the first such task, at its place in the list,
  \<^verbatim>\<open>save()\<close> is called and the result is \<^verbatim>\<open>true\<close>. When the storage accepts the
  write, it then holds the text of the updated list under the key of the manager, and a
  fresh \<^verbatim>\<open>load()\<close> yields the objects of that list; when it refuses the write, the
  storage stays as it was. The function is total: no branch of it throws.
\<close>

theorem updateTask_spec:
  "(i \<notin> task_id ` set (tasks w) \<longrightarrow> updateTask i u w = (False, w)) \<and>
   (i \<in> task_id ` set (tasks w) \<longrightarrow>
      firstIndex i (tasks w) < length (tasks w) \<and>
      task_id (tasks w ! firstIndex i (tasks w)) = i \<and>
      (\<forall>j < firstIndex i (tasks w). task_id (tasks w ! j) \<noteq> i) \<and>
      updateTask i u w =
        (True, save (w\<lparr>tasks := (tasks w)[firstIndex i (tasks w) :=
                       Object_assign (tasks w ! firstIndex i (tasks w)) u]\<rparr>)) \<and>
      tasks (snd (updateTask i u w)) = merged i u (tasks w) \<and>
      (setItem (storageKey w) (JSON_stringify (merged i u (tasks w))) (localStorage w) = Inr st \<longrightarrow>
         localStorage (snd (updateTask i u w)) = st \<and>
         getItem (storageKey w) st = Inr (Some (JSON_stringify (merged i u (tasks w)))) \<and>
         load (storageKey w) st = map taskObject (merged i u (tasks w))) \<and>
      (setItem (storageKey w) (JSON_stringify (merged i u (tasks w))) (localStorage w) = Inl e \<longrightarrow>
         localStorage (snd (updateTask i u w)) = localStorage w))"
proof (cases "i \<in> task_id ` set (tasks w)")
  case False
  then have "find (\<lambda>x. task_id x = i) (tasks w) = None"
    by (simp add: find_id_None)
  with False show ?thesis
    by (simp add: updateTask_def)
next
  case True
  let ?ts = "merged i u (tasks w)"
  from True obtain t where "find (\<lambda>x. task_id x = i) (tasks w) = Some t"
    using find_id_None [of i "tasks w"] by (cases "find (\<lambda>x. task_id x = i) (tasks w)") auto
  with True have eq: "updateTask i u w = (True, save (w\<lparr>tasks := ?ts\<rparr>))"
    by (simp add: updateTask_def assignFirst_update merged_def)
  then have eq': "updateTask i u w =
      (True, save (w\<lparr>tasks := (tasks w)[firstIndex i (tasks w) :=
                     Object_assign (tasks w ! firstIndex i (tasks w)) u]\<rparr>))"
    by (simp add: merged_def)
  have ts: "tasks (snd (updateTask i u w)) = ?ts"
    by (simp add: eq)
  have first: "firstIndex i (tasks w) < length (tasks w)"
    "task_id (tasks w ! firstIndex i (tasks w)) = i"
    "\<forall>j < firstIndex i (tasks w). task_id (tasks w ! j) \<noteq> i"
    using True by (simp_all add: firstIndex_less firstIndex_hit firstIndex_first)
  have written: "setItem (storageKey w) (JSON_stringify ?ts) (localStorage w) = Inr st \<longrightarrow>
      localStorage (snd (updateTask i u w)) = st \<and>
      getItem (storageKey w) st = Inr (Some (JSON_stringify ?ts)) \<and>
      load (storageKey w) st = map taskObject ?ts"
    using save_storage [of w ?ts st e] by (simp add: eq)
  have refused: "setItem (storageKey w) (JSON_stringify ?ts) (localStorage w) = Inl e \<longrightarrow>
      localStorage (snd (updateTask i u w)) = localStorage w"
    using save_storage [of w ?ts st e] by (simp add: eq)
  from True first eq' ts written refused show ?thesis
    by blast
qed

text \<open>
  The amended C5 on the list of two tasks, at an id that is not held and at the id of
  the second task, over a storage that takes the write; and on the list of one task
  over the storage that refuses it.
\<close>

theorem updateTask_spec_witness:
  \<open>utf16 ''_i'' \<notin> task_id ` set (tasks dogWorld) \<and>
   utf16 ''_4fzyo82'' \<in> task_id ` set (tasks dogWorld) \<and>
   updateTask (utf16 ''_i'') (noUpdates\<lparr>upd_text := Some (utf16 ''Buy oat milk'')\<rparr>) dogWorld =
     (False, dogWorld) \<and>
   firstIndex (utf16 ''_4fzyo82'') (tasks dogWorld) = 1 \<and>
   fst (updateTask (utf16 ''_4fzyo82'') (noUpdates\<lparr>upd_text := Some (utf16 ''Buy oat milk'')\<rparr>)
          dogWorld) = True \<and>
   tasks (snd (updateTask (utf16 ''_4fzyo82'')
          (noUpdates\<lparr>upd_text := Some (utf16 ''Buy oat milk'')\<rparr>) dogWorld)) =
     [\<lparr> task_id = utf16 ''_k1x9q0c'', task_text = utf16 ''Walk dog'', completed = False,
        createdAt = 1700000000500 \<rparr>,
      \<lparr> task_id = utf16 ''_4fzyo82'', task_text = utf16 ''Buy oat milk'', completed = True,
        createdAt = 1700000000000 \<rparr>] \<and>
   setItem (storageKey dogWorld)
       (JSON_stringify (merged (utf16 ''_4fzyo82'')
          (noUpdates\<lparr>upd_text := Some (utf16 ''Buy oat milk'')\<rparr>) (tasks dogWorld)))
       (localStorage dogWorld) =
     Inr (emptyStorage\<lparr>items := [(utf16 ''todo.tasks.v1'',
       utf16 ''[{"id":"_k1x9q0c","text":"Walk dog","completed":false,"createdAt":1700000000500},{"id":"_4fzyo82","text":"Buy oat milk","completed":true,"createdAt":1700000000000}]'')]\<rparr>) \<and>
   localStorage (snd (updateTask (utf16 ''_4fzyo82'')
          (noUpdates\<lparr>upd_text := Some (utf16 ''Buy oat milk'')\<rparr>) dogWorld)) =
     emptyStorage\<lparr>items := [(utf16 ''todo.tasks.v1'',
       utf16 ''[{"id":"_k1x9q0c","text":"Walk dog","completed":false,"createdAt":1700000000500},{"id":"_4fzyo82","text":"Buy oat milk","completed":true,"createdAt":1700000000000}]'')]\<rparr> \<and>
   load (utf16 ''todo.tasks.v1'') (localStorage (snd (updateTask (utf16 ''_4fzyo82'')
          (noUpdates\<lparr>upd_text := Some (utf16 ''Buy oat milk'')\<rparr>) dogWorld))) =
     [JObj [(utf16 ''id'', JStr (utf16 ''_k1x9q0c'')), (utf16 ''text'', JStr (utf16 ''Walk dog'')),
            (utf16 ''completed'', JBool False), (utf16 ''createdAt'', JNum 1700000000500)],
      JObj [(utf16 ''id'', JStr (utf16 ''_4fzyo82'')),
            (utf16 ''text'', JStr (utf16 ''Buy oat milk'')),
            (utf16 ''completed'', JBool True), (utf16 ''createdAt'', JNum 1700000000000)]] \<and>
   utf16 ''_4fzyo82'' \<in> task_id ` set (tasks unsavedWorld) \<and>
   setItem (storageKey unsavedWorld)
       (JSON_stringify (merged (utf16 ''_4fzyo82'')
          (noUpdates\<lparr>upd_text := Some (utf16 ''Buy oat milk'')\<rparr>) (tasks unsavedWorld)))
       (localStorage unsavedWorld) = Inl QuotaExceededError \<and>
   localStorage (snd (updateTask (utf16 ''_4fzyo82'')
          (noUpdates\<lparr>upd_text := Some (utf16 ''Buy oat milk'')\<rparr>) unsavedWorld)) =
     localStorage unsavedWorld\<close>
proof -
  let ?u = "noUpdates\<lparr>upd_text := Some (utf16 ''Buy oat milk'')\<rparr>"
  let ?new = "[\<lparr> task_id = utf16 ''_k1x9q0c'', task_text = utf16 ''Walk dog'', completed = False,
        createdAt = 1700000000500 \<rparr>,
      \<lparr> task_id = utf16 ''_4fzyo82'', task_text = utf16 ''Buy oat milk'', completed = True,
        createdAt = 1700000000000 \<rparr>]"
  have list: "utf16 ''_i'' \<notin> task_id ` set (tasks dogWorld) \<and>
      utf16 ''_4fzyo82'' \<in> task_id ` set (tasks dogWorld) \<and>
      updateTask (utf16 ''_i'') ?u dogWorld = (False, dogWorld) \<and>
      firstIndex (utf16 ''_4fzyo82'') (tasks dogWorld) = 1 \<and>
      fst (updateTask (utf16 ''_4fzyo82'') ?u dogWorld) = True \<and>
      tasks (snd (updateTask (utf16 ''_4fzyo82'') ?u dogWorld)) = ?new"
    using updateTask_spec [of "utf16 ''_i''" dogWorld ?u]
      updateTask_spec [of "utf16 ''_4fzyo82''" dogWorld ?u]
    by (simp add: dog_tasks firstIndex_def Object_assign_def noUpdates_def merged_def utf16_def)
  have new: "merged (utf16 ''_4fzyo82'') ?u (tasks dogWorld) = ?new"
    by (simp add: dog_tasks merged_def firstIndex_def Object_assign_def noUpdates_def utf16_def)
  have written_text: \<open>JSON_stringify ?new =
      utf16 ''[{"id":"_k1x9q0c","text":"Walk dog","completed":false,"createdAt":1700000000500},{"id":"_4fzyo82","text":"Buy oat milk","completed":true,"createdAt":1700000000000}]''\<close>
    by (simp add: stringify_defs utf16_def)
  have ok: \<open>setItem (storageKey dogWorld) (JSON_stringify ?new) (localStorage dogWorld) =
      Inr (emptyStorage\<lparr>items := [(utf16 ''todo.tasks.v1'',
        utf16 ''[{"id":"_k1x9q0c","text":"Walk dog","completed":false,"createdAt":1700000000500},{"id":"_4fzyo82","text":"Buy oat milk","completed":true,"createdAt":1700000000000}]'')]\<rparr>)\<close>
    unfolding written_text
    by (simp add: world_keys dog_storage setItem_def emptyStorage_def used_def utf16_def)
  have mem: "utf16 ''_4fzyo82'' \<in> task_id ` set (tasks dogWorld)"
    "utf16 ''_4fzyo82'' \<in> task_id ` set (tasks unsavedWorld)"
    by (simp_all add: dog_tasks unsaved_world)
  have no: "setItem (storageKey unsavedWorld)
      (JSON_stringify (merged (utf16 ''_4fzyo82'') ?u (tasks unsavedWorld)))
      (localStorage unsavedWorld) = Inl QuotaExceededError"
    by (simp add: unsaved_world setItem_fullStorage JSON_stringify_nonempty)
  from updateTask_spec [of "utf16 ''_4fzyo82''" dogWorld ?u
      \<open>emptyStorage\<lparr>items := [(utf16 ''todo.tasks.v1'',
        utf16 ''[{"id":"_k1x9q0c","text":"Walk dog","completed":false,"createdAt":1700000000500},{"id":"_4fzyo82","text":"Buy oat milk","completed":true,"createdAt":1700000000000}]'')]\<rparr>\<close>,
      unfolded new]
    mem(1) ok
  have acc: \<open>localStorage (snd (updateTask (utf16 ''_4fzyo82'') ?u dogWorld)) =
      emptyStorage\<lparr>items := [(utf16 ''todo.tasks.v1'',
        utf16 ''[{"id":"_k1x9q0c","text":"Walk dog","completed":false,"createdAt":1700000000500},{"id":"_4fzyo82","text":"Buy oat milk","completed":true,"createdAt":1700000000000}]'')]\<rparr> \<and>
      load (storageKey dogWorld) (emptyStorage\<lparr>items := [(utf16 ''todo.tasks.v1'',
        utf16 ''[{"id":"_k1x9q0c","text":"Walk dog","completed":false,"createdAt":1700000000500},{"id":"_4fzyo82","text":"Buy oat milk","completed":true,"createdAt":1700000000000}]'')]\<rparr>) =
        map taskObject ?new\<close>
    by blast
  from updateTask_spec [of "utf16 ''_4fzyo82''" unsavedWorld ?u _ QuotaExceededError] mem(2) no
  have ref: "localStorage (snd (updateTask (utf16 ''_4fzyo82'') ?u unsavedWorld)) =
      localStorage unsavedWorld"
    by blast
  have stored: \<open>setItem (storageKey dogWorld)
          (JSON_stringify (merged (utf16 ''_4fzyo82'') ?u (tasks dogWorld)))
          (localStorage dogWorld) =
        Inr (emptyStorage\<lparr>items := [(utf16 ''todo.tasks.v1'',
          utf16 ''[{"id":"_k1x9q0c","text":"Walk dog","completed":false,"createdAt":1700000000500},{"id":"_4fzyo82","text":"Buy oat milk","completed":true,"createdAt":1700000000000}]'')]\<rparr>) \<and>
      localStorage (snd (updateTask (utf16 ''_4fzyo82'') ?u dogWorld)) =
        emptyStorage\<lparr>items := [(utf16 ''todo.tasks.v1'',
          utf16 ''[{"id":"_k1x9q0c","text":"Walk dog","completed":false,"createdAt":1700000000500},{"id":"_4fzyo82","text":"Buy oat milk","completed":true,"createdAt":1700000000000}]'')]\<rparr> \<and>
      load (utf16 ''todo.tasks.v1'') (localStorage (snd (updateTask (utf16 ''_4fzyo82'') ?u dogWorld))) =
        [JObj [(utf16 ''id'', JStr (utf16 ''_k1x9q0c'')), (utf16 ''text'', JStr (utf16 ''Walk dog'')),
               (utf16 ''completed'', JBool False), (utf16 ''createdAt'', JNum 1700000000500)],
         JObj [(utf16 ''id'', JStr (utf16 ''_4fzyo82'')),
               (utf16 ''text'', JStr (utf16 ''Buy oat milk'')),
               (utf16 ''completed'', JBool True), (utf16 ''createdAt'', JNum 1700000000000)]] \<and>
      utf16 ''_4fzyo82'' \<in> task_id ` set (tasks unsavedWorld) \<and>
      setItem (storageKey unsavedWorld)
          (JSON_stringify (merged (utf16 ''_4fzyo82'') ?u (tasks unsavedWorld)))
          (localStorage unsavedWorld) = Inl QuotaExceededError \<and>
      localStorage (snd (updateTask (utf16 ''_4fzyo82'') ?u unsavedWorld)) =
        localStorage unsavedWorld\<close>
    using mem ok no ref unfolding new
    by (simp add: acc [unfolded world_keys] taskObject_def)
  from list stored show ?thesis
    by blast
qed

section \<open>clearCompleted\<close>

text \<open>
  C8. \<^verbatim>\<open>clearCompleted()\<close> twice in a row gives the state that one call gives. The
  call removes exactly the tasks whose \<open>completed\<close> is true, and it saves exactly when
  the number of tasks changed.
\<close>

theorem clearCompleted_spec:
  "clearCompleted (clearCompleted w) = clearCompleted w \<and>
   tasks (clearCompleted w) = filter (\<lambda>t. completed t \<noteq> True) (tasks w) \<and>
   set (tasks (clearCompleted w)) = set (tasks w) - {t. completed t = True} \<and>
   clearCompleted w =
     (if length (filter (\<lambda>t. completed t \<noteq> True) (tasks w)) \<noteq> length (tasks w)
      then save (w\<lparr>tasks := filter (\<lambda>t. completed t \<noteq> True) (tasks w)\<rparr>) else w)"
proof -
  let ?ts = "filter (\<lambda>t. completed t \<noteq> True) (tasks w)"
  have eq: "clearCompleted w =
      (if length ?ts \<noteq> length (tasks w) then save (w\<lparr>tasks := ?ts\<rparr>) else w)"
    by (simp add: clearCompleted_def Let_def filter_same_length)
  have ts: "tasks (clearCompleted w) = ?ts"
    by (simp add: clearCompleted_def Let_def)
  have again: "filter (\<lambda>t. \<not> completed t) (tasks (clearCompleted w)) = tasks (clearCompleted w)"
    by (simp add: ts)
  have idem: "clearCompleted (clearCompleted w) = clearCompleted w"
    by (subst (1) clearCompleted_def) (simp add: Let_def again)
  have st: "set (tasks (clearCompleted w)) = set (tasks w) - {t. completed t = True}"
    by (auto simp: ts)
  from idem ts st eq show ?thesis
    by blast
qed

text \<open>C8 on the list of two tasks, one of them completed.\<close>

theorem clearCompleted_spec_witness:
  "tasks (clearCompleted dogWorld) =
     [\<lparr> task_id = utf16 ''_k1x9q0c'', task_text = utf16 ''Walk dog'', completed = False,
        createdAt = 1700000000500 \<rparr>] \<and>
   clearCompleted (clearCompleted dogWorld) = clearCompleted dogWorld"
proof -
  have idem: "clearCompleted (clearCompleted dogWorld) = clearCompleted dogWorld"
    using clearCompleted_spec [of dogWorld] by (rule conjunct1)
  have "tasks (clearCompleted dogWorld) =
     [\<lparr> task_id = utf16 ''_k1x9q0c'', task_text = utf16 ''Walk dog'', completed = False,
        createdAt = 1700000000500 \<rparr>]"
    by (simp add: tasks_clearCompleted dog_tasks)
  with idem show ?thesis
    by (rule conjI [rotated])
qed

section \<open>getRemainingCount\<close>

text \<open>
  C9. After any sequence of operations \<^verbatim>\<open>getRemainingCount()\<close> is the number of
  positions of the list that hold a task with \<open>completed\<close> false, and the call leaves
  the state as it was.
\<close>

theorem getRemainingCount_spec:
  "fst (getRemainingCount (run ops w)) =
     card {k. k < length (tasks (run ops w)) \<and> completed (tasks (run ops w) ! k) = False} \<and>
   snd (getRemainingCount (run ops w)) = run ops w"
  by (simp add: getRemainingCount_def length_filter_conv_card)

text \<open>C9 after add, add, toggle: one task is left to do.\<close>

theorem getRemainingCount_spec_witness:
  "fst (getRemainingCount (run [addMilk, addDog, toggleMilk] world0)) = 1 \<and>
   snd (getRemainingCount (run [addMilk, addDog, toggleMilk] world0)) =
     run [addMilk, addDog, toggleMilk] world0"
  using getRemainingCount_spec [of "[addMilk, addDog, toggleMilk]" world0]
  by (simp add: getRemainingCount_def dog_tasks dogWorld_def [symmetric] del: run.simps)

section \<open>Order of the list\<close>

text \<open>
  C10. \<^verbatim>\<open>updateTask(id, u)\<close> keeps the length of the list and every task but the first
  one with the id, each at its position; in particular every task with another id.
  \<^verbatim>\<open>removeTask\<close> and \<^verbatim>\<open>clearCompleted\<close> leave the tasks that survive in the order
  they had.
\<close>

theorem mutations_keep_order:
  "length (tasks (snd (updateTask i u w))) = length (tasks w) \<and>
   (\<forall>j < length (tasks w). j \<noteq> firstIndex i (tasks w) \<longrightarrow>
      tasks (snd (updateTask i u w)) ! j = tasks w ! j) \<and>
   (\<forall>j < length (tasks w). task_id (tasks w ! j) \<noteq> i \<longrightarrow>
      tasks (snd (updateTask i u w)) ! j = tasks w ! j) \<and>
   tasks (snd (removeTask i w)) = filter (\<lambda>t. task_id t \<noteq> i) (tasks w) \<and>
   subseq (tasks (snd (removeTask i w))) (tasks w) \<and>
   tasks (clearCompleted w) = filter (\<lambda>t. \<not> completed t) (tasks w) \<and>
   subseq (tasks (clearCompleted w)) (tasks w)"
  by (simp add: tasks_updateTask tasks_removeTask tasks_clearCompleted
      assignFirst_nth_other assignFirst_nth_other_id)

text \<open>C10 on the list of two tasks, at the id of the second one.\<close>

theorem mutations_keep_order_witness:
  "(0::nat) < length (tasks dogWorld) \<and> 0 \<noteq> firstIndex (utf16 ''_4fzyo82'') (tasks dogWorld) \<and>
   task_id (tasks dogWorld ! 0) \<noteq> utf16 ''_4fzyo82'' \<and>
   tasks (snd (updateTask (utf16 ''_4fzyo82'') (noUpdates\<lparr>upd_completed := Some False\<rparr>)
      dogWorld)) ! 0 = tasks dogWorld ! 0 \<and>
   tasks (snd (removeTask (utf16 ''_4fzyo82'') dogWorld)) = [tasks dogWorld ! 0] \<and>
   tasks (clearCompleted dogWorld) = [tasks dogWorld ! 0]"
  using mutations_keep_order [of "utf16 ''_4fzyo82''"
      "noUpdates\<lparr>upd_completed := Some False\<rparr>" dogWorld]
  by (simp add: dog_tasks firstIndex_def utf16_def)

section \<open>save and load\<close>

text \<open>
  C6 as stated fails: \<^verbatim>\<open>save()\<close> swallows the error of a storage that refuses the
  write. Over a storage whose quota is used up the list holds "Buy milk", \<^verbatim>\<open>save()\<close>
  leaves the storage as it was, and \<^verbatim>\<open>load()\<close> returns the empty list.
\<close>

theorem save_load_counterexample:
  "map task_text (tasks unsavedWorld) = [utf16 ''Buy milk''] \<and>
   localStorage (save unsavedWorld) = fullStorage \<and>
   load (storageKey unsavedWorld) (localStorage (save unsavedWorld)) = [] \<and>
   load (storageKey unsavedWorld) (localStorage (save unsavedWorld)) \<noteq>
     map taskObject (tasks unsavedWorld)"
proof -
  have w: "unsavedWorld =
      world0\<lparr>tasks := [\<lparr> task_id = utf16 ''_4fzyo82'', task_text = utf16 ''Buy milk'',
        completed = False, createdAt = 1700000000000 \<rparr>], localStorage := fullStorage\<rparr>"
    by (simp add: unsavedWorld_def addMilk_def addTask_def Let_def save_def setItem_def
        fullStorage_def emptyStorage_def world0_def used_def string_defs)
  have s: "save unsavedWorld = unsavedWorld"
    by (simp add: w save_def setItem_def fullStorage_def emptyStorage_def world0_def used_def
        utf16_def)
  show ?thesis
    unfolding s by (simp add: w load_def getItem_def fullStorage_def emptyStorage_def world0_def)
qed

text \<open>
  C6, amended. For every task list and every storage that accepts the write (it is not
  denied and the text fits the quota), \<^verbatim>\<open>save()\<close> and then \<^verbatim>\<open>load()\<close> with the same
  key over the storage it left yields the objects of the tasks that were saved, in their
  order; the objects determine the tasks. When the storage refuses the write,
  \<^verbatim>\<open>save()\<close> leaves it as it was.
\<close>

theorem save_load_roundtrip:
  "(setItem (storageKey w) (JSON_stringify (tasks w)) (localStorage w) = Inr st \<longrightarrow>
      load (storageKey w) (localStorage (save w)) = map taskObject (tasks w)) \<and>
   (map taskObject ts = map taskObject ts' \<longrightarrow> ts = ts') \<and>
   (setItem (storageKey w) (JSON_stringify (tasks w)) (localStorage w) = Inl e \<longrightarrow> save w = w)"
proof -
  have "load (storageKey w) (localStorage (save w)) = map taskObject (tasks w)"
    if "setItem (storageKey w) (JSON_stringify (tasks w)) (localStorage w) = Inr st"
    using that
    by (auto simp: save_def load_def getItem_def setItem_def map_of_put JSON_parse_stringify
        JSON_stringify_nonempty split: if_splits)
  moreover have "ts = ts'" if "map taskObject ts = map taskObject ts'"
    using that by (simp add: inj_on_def inj_taskObject inj_on_map_eq_map [of taskObject])
  moreover have "save w = w"
    if "setItem (storageKey w) (JSON_stringify (tasks w)) (localStorage w) = Inl e"
    using that by (simp add: save_def)
  ultimately show ?thesis
    by blast
qed

text \<open>
  The amended C6 on the state after the scenario, and on the storage that refuses.
\<close>

theorem save_load_roundtrip_witness:
  "setItem (storageKey dogWorld) (JSON_stringify (tasks dogWorld)) (localStorage dogWorld) =
     Inr (localStorage dogWorld) \<and>
   load (storageKey dogWorld) (localStorage (save dogWorld)) =
     [JObj [(utf16 ''id'', JStr (utf16 ''_k1x9q0c'')), (utf16 ''text'', JStr (utf16 ''Walk dog'')),
            (utf16 ''completed'', JBool False), (utf16 ''createdAt'', JNum 1700000000500)],
      JObj [(utf16 ''id'', JStr (utf16 ''_4fzyo82'')), (utf16 ''text'', JStr (utf16 ''Buy milk'')),
            (utf16 ''completed'', JBool True), (utf16 ''createdAt'', JNum 1700000000000)]] \<and>
   map taskObject (tasks milkWorld) = map taskObject (tasks unsavedWorld) \<and>
   tasks milkWorld = tasks unsavedWorld \<and>
   setItem (storageKey unsavedWorld) (JSON_stringify (tasks unsavedWorld))
     (localStorage unsavedWorld) = Inl QuotaExceededError \<and>
   save unsavedWorld = unsavedWorld"
proof -
  have st: "localStorage dogWorld =
      emptyStorage\<lparr>items := [(utf16 ''todo.tasks.v1'', JSON_stringify (tasks dogWorld))]\<rparr>"
    by (simp add: dogWorld_def addMilk_def addDog_def toggleMilk_def)
      (simp add: addTask_def updateTask_def Let_def save_def setItem_def world0_def
        emptyStorage_def used_def Object_assign_def noUpdates_def string_defs stringify_defs)
  have key: "storageKey dogWorld = utf16 ''todo.tasks.v1''"
    by (simp add: dogWorld_def addMilk_def addDog_def toggleMilk_def addTask_def updateTask_def
        Let_def world0_def split: option.splits)
  have ok: "setItem (storageKey dogWorld) (JSON_stringify (tasks dogWorld))
      (localStorage dogWorld) = Inr (localStorage dogWorld)"
    by (simp add: key st dog_text setItem_def emptyStorage_def used_def utf16_def)
  have w: "unsavedWorld =
      world0\<lparr>tasks := [\<lparr> task_id = utf16 ''_4fzyo82'', task_text = utf16 ''Buy milk'',
        completed = False, createdAt = 1700000000000 \<rparr>], localStorage := fullStorage\<rparr>"
    by (simp add: unsavedWorld_def addMilk_def addTask_def Let_def save_def setItem_def
        fullStorage_def emptyStorage_def world0_def used_def string_defs)
  have no: "setItem (storageKey unsavedWorld) (JSON_stringify (tasks unsavedWorld))
      (localStorage unsavedWorld) = Inl QuotaExceededError"
    by (simp add: w setItem_def fullStorage_def emptyStorage_def world0_def used_def utf16_def)
  have same: "tasks milkWorld = tasks unsavedWorld"
    by (simp add: milk_tasks w)
  from save_load_roundtrip [of dogWorld "localStorage dogWorld" "tasks milkWorld"
      "tasks unsavedWorld"] ok same
    save_load_roundtrip [of unsavedWorld _ _ _ QuotaExceededError] no
  show ?thesis
    by (simp add: dog_tasks taskObject_def)
qed

section \<open>load\<close>

text \<open>
  C7 as stated fails: \<^verbatim>\<open>load()\<close> checks that the parsed value is an array and
  nothing more. A stored \<^verbatim>\<open>[null]\<close>, which is not a list of task records, is
  returned as it was parsed: that is not the empty list, which the storage without the
  entry gives.
\<close>

theorem load_counterexample:
  "getItem (utf16 ''todo.tasks.v1'') nullStorage = Inr (Some (utf16 ''[null]'')) \<and>
   load (utf16 ''todo.tasks.v1'') nullStorage = [JNull] \<and>
   load (utf16 ''todo.tasks.v1'') nullStorage \<noteq> [] \<and>
   load (utf16 ''todo.tasks.v1'') (withoutItem (utf16 ''todo.tasks.v1'') nullStorage) = []"
proof -
  have g: "getItem (utf16 ''todo.tasks.v1'') nullStorage = Inr (Some (utf16 ''[null]''))"
    "getItem (utf16 ''todo.tasks.v1'') (withoutItem (utf16 ''todo.tasks.v1'') nullStorage) =
      Inr None"
    by (simp_all add: getItem_def nullStorage_def withoutItem_def emptyStorage_def)
  have p: "JSON_parse (utf16 ''[null]'') = Some (JArr [JNull])"
    by (simp add: parse_defs utf16_def)
  have n: "utf16 ''[null]'' \<noteq> []"
    by (simp add: utf16_def)
  show ?thesis
    by (simp add: load_def g p n)
qed

text \<open>
  C7, amended. \<^verbatim>\<open>load()\<close> returns the empty list when the storage cannot be read,
  when the entry is missing, when its text is not JSON, and when the text is JSON but
  not an array; in the last two cases it gives what the storage without the entry gives.
  In the one remaining case the text is that of an array, and \<^verbatim>\<open>load()\<close> returns its
  elements as they were parsed, whatever they are. \<^verbatim>\<open>load()\<close> has a value for every
  storage: no error leaves it.
\<close>

theorem load_fallback:
  "(getItem k st = Inl e \<longrightarrow> load k st = []) \<and>
   (getItem k st = Inr None \<longrightarrow> load k st = []) \<and>
   (getItem k st = Inr (Some raw) \<and> JSON_parse raw = None \<longrightarrow>
      load k st = [] \<and> load k (withoutItem k st) = load k st) \<and>
   (getItem k st = Inr (Some raw) \<and> JSON_parse raw = Some v \<and> (\<forall>xs. v \<noteq> JArr xs) \<longrightarrow>
      load k st = [] \<and> load k (withoutItem k st) = load k st) \<and>
   (getItem k st = Inr (Some raw) \<and> JSON_parse raw = Some (JArr xs) \<longrightarrow> load k st = xs)"
proof -
  have absent: "map_of (filter (\<lambda>(k', v). k' \<noteq> k) kvs) k = None"
    for kvs :: "(jsstring \<times> jsstring) list"
    by (induction kvs) auto
  have without: "load k (withoutItem k st) = []" if "getItem k st = Inr (Some raw)"
    using that by (simp add: load_def getItem_def withoutItem_def absent split: if_splits)
  have list: "load k st = xs" if "getItem k st = Inr (Some raw)" "JSON_parse raw = Some (JArr xs)"
  proof -
    from that(2) have "raw \<noteq> []"
      using JSON_parse_empty by auto
    with that show ?thesis
      by (simp add: load_def)
  qed
  have other: "load k st = []"
    if "getItem k st = Inr (Some raw)" "JSON_parse raw = Some v" "\<forall>xs. v \<noteq> JArr xs"
    using that by (cases v) (simp_all add: load_def)
  show ?thesis
    using without list other by (simp add: load_def)
qed

text \<open>
  The amended C7 on a storage that is denied, an empty one, one with a truncated text,
  one with the text of an object, and two with the text of a list of values that are
  not tasks.
\<close>

theorem load_fallback_witness:
  \<open>getItem (utf16 ''todo.tasks.v1'') deniedStorage = Inl SecurityError \<and>
   load (utf16 ''todo.tasks.v1'') deniedStorage = [] \<and>
   getItem (utf16 ''todo.tasks.v1'') emptyStorage = Inr None \<and>
   load (utf16 ''todo.tasks.v1'') emptyStorage = [] \<and>
   getItem (utf16 ''todo.tasks.v1'') brokenStorage = Inr (Some (utf16 ''[{"id":'')) \<and>
   JSON_parse (utf16 ''[{"id":'') = None \<and>
   load (utf16 ''todo.tasks.v1'') brokenStorage = [] \<and>
   load (utf16 ''todo.tasks.v1'') (withoutItem (utf16 ''todo.tasks.v1'') brokenStorage) = [] \<and>
   getItem (utf16 ''todo.tasks.v1'') objectStorage = Inr (Some (utf16 ''{"tasks": []}'')) \<and>
   JSON_parse (utf16 ''{"tasks": []}'') = Some (JObj [(utf16 ''tasks'', JArr [])]) \<and>
   load (utf16 ''todo.tasks.v1'') objectStorage = [] \<and>
   load (utf16 ''todo.tasks.v1'') (withoutItem (utf16 ''todo.tasks.v1'') objectStorage) = [] \<and>
   getItem (utf16 ''todo.tasks.v1'') listStorage = Inr (Some (utf16 '' [2, "two"] '')) \<and>
   JSON_parse (utf16 '' [2, "two"] '') = Some (JArr [JNum 2, JStr (utf16 ''two'')]) \<and>
   load (utf16 ''todo.tasks.v1'') listStorage = [JNum 2, JStr (utf16 ''two'')] \<and>
   getItem (utf16 ''todo.tasks.v1'') nullStorage = Inr (Some (utf16 ''[null]'')) \<and>
   JSON_parse (utf16 ''[null]'') = Some (JArr [JNull]) \<and>
   load (utf16 ''todo.tasks.v1'') nullStorage = [JNull]\<close>
proof -
  have g: "getItem (utf16 ''todo.tasks.v1'') deniedStorage = Inl SecurityError"
    "getItem (utf16 ''todo.tasks.v1'') emptyStorage = Inr None"
    \<open>getItem (utf16 ''todo.tasks.v1'') brokenStorage = Inr (Some (utf16 ''[{"id":''))\<close>
    \<open>getItem (utf16 ''todo.tasks.v1'') objectStorage = Inr (Some (utf16 ''{"tasks": []}''))\<close>
    \<open>getItem (utf16 ''todo.tasks.v1'') listStorage = Inr (Some (utf16 '' [2, "two"] ''))\<close>
    "getItem (utf16 ''todo.tasks.v1'') nullStorage = Inr (Some (utf16 ''[null]''))"
    by (simp_all add: getItem_def deniedStorage_def emptyStorage_def brokenStorage_def
        objectStorage_def listStorage_def nullStorage_def)
  have p: \<open>JSON_parse (utf16 ''[{"id":'') = None\<close>
    \<open>JSON_parse (utf16 ''{"tasks": []}'') = Some (JObj [(utf16 ''tasks'', JArr [])])\<close>
    \<open>JSON_parse (utf16 '' [2, "two"] '') = Some (JArr [JNum 2, JStr (utf16 ''two'')])\<close>
    "JSON_parse (utf16 ''[null]'') = Some (JArr [JNull])"
    by (simp_all add: parse_defs utf16_def)
  from load_fallback [of "utf16 ''todo.tasks.v1''" deniedStorage SecurityError] g(1)
    load_fallback [of "utf16 ''todo.tasks.v1''" emptyStorage] g(2)
    load_fallback [of "utf16 ''todo.tasks.v1''" brokenStorage _ \<open>utf16 ''[{"id":''\<close>] g(3) p(1)
    load_fallback [of "utf16 ''todo.tasks.v1''" objectStorage _ \<open>utf16 ''{"tasks": []}''\<close>
      "JObj [(utf16 ''tasks'', JArr [])]"] g(4) p(2)
    load_fallback [of "utf16 ''todo.tasks.v1''" listStorage _ \<open>utf16 '' [2, "two"] ''\<close> _
      "[JNum 2, JStr (utf16 ''two'')]"] g(5) p(3)
    load_fallback [of "utf16 ''todo.tasks.v1''" nullStorage _ "utf16 ''[null]''" _ "[JNull]"]
      g(6) p(4)
  show ?thesis
    by simp
qed

end
